theory Spec2Isabelle
  imports Complex_Main
begin

section \<open>The browser pool (class BrowserPool)\<close>

text \<open>
  The pool keeps three pieces of bookkeeping: the map \<open>browsers\<close> from wrapper id to
  wrapper (a JavaScript \<open>Map\<close>, which iterates in insertion order, hence an association
  list), the list \<open>availableBrowsers\<close> of ids, and the list \<open>browserQueue\<close> of the
  resolve callbacks of suspended \<open>acquireBrowser\<close> calls.

  Modelling decisions:
  \<^item> \<open>uuidv4()\<close> is a counter \<open>nextId\<close> kept with the pool: every call returns a value
    never returned before. A Playwright \<open>Browser\<close> handle is compared by reference in
    \<open>findWrapperByBrowser\<close>; the handle launched for wrapper \<open>n\<close> is the number \<open>n\<close>.
  \<^item> A wrapper is a JavaScript object shared by reference between the map and the code
    holding it; an assignment to one of its fields is an update of the entry stored under
    its id (its id is never reused, so the id names the object).
  \<^item> A profile is represented by its id: the pool only stores it in the wrapper.
  \<^item> Everything the pool asks of Playwright is an input, gathered in \<open>Env\<close>: the clock,
    whether launching the browser for a given id succeeds, whether configuring a wrapper
    for a profile succeeds, and whether the health probe of a wrapper succeeds.
    \<open>clearBrowserState\<close> and the closing of a context catch every error and touch no
    bookkeeping, so they do not appear.
  \<^item> Every operation runs from its call to its return without another operation in
    between; the callback of a waiter runs when \<open>releaseBrowser\<close> calls it.
\<close>

type_synonym Profile = string
type_synonym Browser = nat

record BrowserWrapper =
  wrapper_id :: nat
  browser :: Browser
  profile :: "Profile option"
  createdAt :: int
  lastUsed :: int
  tasksCompleted :: nat
  inUse :: bool

record BrowserPool =
  browsers :: "(nat \<times> BrowserWrapper) list"
  availableBrowsers :: "nat list"
  browserQueue :: "Profile list"
  isShuttingDown :: bool
  maxBrowsers :: nat
  nextId :: nat

record Env =
  now :: int
  launch_ok :: "nat \<Rightarrow> bool"
  configure_ok :: "nat \<Rightarrow> Profile \<Rightarrow> bool"
  healthy :: "nat \<Rightarrow> bool"

datatype pool_error = ShuttingDown | CreateFailed | ConfigureFailed

datatype acquire_result = Acquired Browser | Suspended | Rejected pool_error

datatype release_result = Released "(Profile \<times> acquire_result) option" | ReleaseFailed pool_error

text \<open>\<open>this.browsers.set(id, wrapper)\<close>: a new key goes to the end of the iteration order.\<close>

definition browsers_set ::
    "nat \<Rightarrow> BrowserWrapper \<Rightarrow> (nat \<times> BrowserWrapper) list \<Rightarrow> (nat \<times> BrowserWrapper) list" where
  "browsers_set k w bs =
     (if k \<in> set (map fst bs) then map (\<lambda>(k', w'). if k' = k then (k', w) else (k', w')) bs
      else bs @ [(k, w)])"

text \<open>An assignment to fields of the wrapper object with id \<open>k\<close>.\<close>

definition update_wrapper :: "nat \<Rightarrow> (BrowserWrapper \<Rightarrow> BrowserWrapper) \<Rightarrow> BrowserPool \<Rightarrow> BrowserPool" where
  "update_wrapper k f pool =
     pool\<lparr>browsers := map (\<lambda>(k', w). if k' = k then (k', f w) else (k', w)) (browsers pool)\<rparr>"

definition createBrowser :: "Env \<Rightarrow> BrowserPool \<Rightarrow> (pool_error + BrowserWrapper) \<times> BrowserPool" where
  "createBrowser env pool =
     (let k = nextId pool;
          pool1 = pool\<lparr>nextId := Suc k\<rparr>
      in if launch_ok env k then
           (let wrapper = \<lparr>wrapper_id = k, browser = k, profile = None, createdAt = now env,
                           lastUsed = now env, tasksCompleted = 0, inUse = False\<rparr>
            in (Inr wrapper,
                pool1\<lparr>browsers := browsers_set k wrapper (browsers pool1),
                      availableBrowsers := availableBrowsers pool1 @ [k]\<rparr>))
         else (Inl CreateFailed, pool1))"

definition getAvailableBrowser :: "BrowserPool \<Rightarrow> BrowserWrapper option \<times> BrowserPool" where
  "getAvailableBrowser pool =
     (case availableBrowsers pool of
        [] \<Rightarrow> (None, pool)
      | k # rest \<Rightarrow> (map_of (browsers pool) k, pool\<lparr>availableBrowsers := rest\<rparr>))"

definition waitForBrowser :: "Profile \<Rightarrow> BrowserPool \<Rightarrow> BrowserPool" where
  "waitForBrowser callback pool = pool\<lparr>browserQueue := browserQueue pool @ [callback]\<rparr>"

text \<open>
  The end of \<open>acquireBrowser\<close>, from \<open>configureBrowserForProfile\<close> to the return: it is
  what runs once a wrapper has been obtained, directly or through the callback that
  \<open>releaseBrowser\<close> calls for a suspended caller.
\<close>

definition acquire_finish ::
    "Env \<Rightarrow> Profile \<Rightarrow> BrowserWrapper \<Rightarrow> BrowserPool \<Rightarrow> acquire_result \<times> BrowserPool" where
  "acquire_finish env p wrapper pool =
     (if configure_ok env (wrapper_id wrapper) p then
        (Acquired (browser wrapper),
         update_wrapper (wrapper_id wrapper)
           (\<lambda>w. w\<lparr>inUse := True, lastUsed := now env, profile := Some p\<rparr>) pool)
      else (Rejected ConfigureFailed, pool))"

definition acquireBrowser :: "Env \<Rightarrow> Profile \<Rightarrow> BrowserPool \<Rightarrow> acquire_result \<times> BrowserPool" where
  "acquireBrowser env p pool =
     (if isShuttingDown pool then (Rejected ShuttingDown, pool)
      else case getAvailableBrowser pool of
        (Some wrapper, pool1) \<Rightarrow> acquire_finish env p wrapper pool1
      | (None, pool1) \<Rightarrow>
          if length (browsers pool1) < maxBrowsers pool1 then
            (case createBrowser env pool1 of
               (Inr wrapper, pool2) \<Rightarrow> acquire_finish env p wrapper pool2
             | (Inl e, pool2) \<Rightarrow> (Rejected e, pool2))
          else (Suspended, waitForBrowser p pool1))"

definition findWrapperByBrowser :: "BrowserPool \<Rightarrow> Browser \<Rightarrow> BrowserWrapper option" where
  "findWrapperByBrowser pool b = find (\<lambda>w. browser w = b) (map snd (browsers pool))"

definition shouldRecycleBrowser :: "Env \<Rightarrow> BrowserWrapper \<Rightarrow> bool" where
  "shouldRecycleBrowser env wrapper =
     (if now env - createdAt wrapper > 3600000 then True
      else if tasksCompleted wrapper \<ge> 50 then True
      else False)"

definition closeBrowser :: "nat \<Rightarrow> BrowserPool \<Rightarrow> BrowserPool" where
  "closeBrowser k pool =
     (case map_of (browsers pool) k of
        None \<Rightarrow> pool
      | Some wrapper \<Rightarrow>
          pool\<lparr>browsers := filter (\<lambda>(k', w). k' \<noteq> k) (browsers pool),
               availableBrowsers := filter (\<lambda>bid. bid \<noteq> k) (availableBrowsers pool)\<rparr>)"

definition recycleBrowser :: "Env \<Rightarrow> nat \<Rightarrow> BrowserPool \<Rightarrow> (pool_error + unit) \<times> BrowserPool" where
  "recycleBrowser env k pool =
     (let pool1 = closeBrowser k pool
      in if \<not> isShuttingDown pool1 \<and> length (browsers pool1) < maxBrowsers pool1 then
           (case createBrowser env pool1 of
              (Inr wrapper, pool2) \<Rightarrow> (Inr (), pool2)
            | (Inl e, pool2) \<Rightarrow> (Inl e, pool2))
         else (Inr (), pool1))"

definition releaseBrowser :: "Env \<Rightarrow> Browser \<Rightarrow> BrowserPool \<Rightarrow> release_result \<times> BrowserPool" where
  "releaseBrowser env b pool =
     (case findWrapperByBrowser pool b of
        None \<Rightarrow> (Released None, pool)
      | Some wrapper0 \<Rightarrow>
          (let wrapper = wrapper0\<lparr>inUse := False, tasksCompleted := Suc (tasksCompleted wrapper0),
                                  profile := None\<rparr>;
               pool1 = update_wrapper (wrapper_id wrapper0)
                         (\<lambda>w. w\<lparr>inUse := False, tasksCompleted := Suc (tasksCompleted w),
                                 profile := None\<rparr>) pool
           in if tasksCompleted wrapper \<ge> 50 \<or> shouldRecycleBrowser env wrapper then
                (case recycleBrowser env (wrapper_id wrapper) pool1 of
                   (Inr u, pool2) \<Rightarrow> (Released None, pool2)
                 | (Inl e, pool2) \<Rightarrow> (ReleaseFailed e, pool2))
              else
                (let pool2 = pool1\<lparr>availableBrowsers := availableBrowsers pool1 @ [wrapper_id wrapper]\<rparr>
                 in case browserQueue pool2 of
                      [] \<Rightarrow> (Released None, pool2)
                    | callback # rest \<Rightarrow>
                        (case acquire_finish env callback wrapper (pool2\<lparr>browserQueue := rest\<rparr>) of
                           (r, pool3) \<Rightarrow> (Released (Some (callback, r)), pool3)))))"

text \<open>
  A run of \<open>n\<close> calls of \<open>createBrowser\<close> in a \<open>for\<close> loop (in \<open>initialize\<close> and in the
  top-up of the maintenance tick): the first failure leaves the loop as an exception.
\<close>

fun createBrowsers :: "nat \<Rightarrow> Env \<Rightarrow> BrowserPool \<Rightarrow> (pool_error + unit) \<times> BrowserPool" where
  "createBrowsers 0 env pool = (Inr (), pool)"
| "createBrowsers (Suc n) env pool =
     (case createBrowser env pool of
        (Inr wrapper, pool1) \<Rightarrow> createBrowsers n env pool1
      | (Inl e, pool1) \<Rightarrow> (Inl e, pool1))"

definition initialize :: "Env \<Rightarrow> BrowserPool \<Rightarrow> (pool_error + unit) \<times> BrowserPool" where
  "initialize env pool = createBrowsers (min (maxBrowsers pool) 5) env pool"

text \<open>
  The health loop of the maintenance tick, \<open>for (const [id, wrapper] of this.browsers)\<close>.
  A \<open>Map\<close> iterator is live: an entry added during the loop is visited too. \<open>pending\<close> is
  the list of ids still to visit; a replacement created by \<open>recycleBrowser\<close> is appended
  to it. Replacements that keep failing their probe keep the loop running, so the loop
  takes fuel (one unit per visited entry); \<open>None\<close> means the fuel ran out.
\<close>

fun healthLoop :: "nat \<Rightarrow> Env \<Rightarrow> nat list \<Rightarrow> BrowserPool \<Rightarrow> ((pool_error + unit) \<times> BrowserPool) option" where
  "healthLoop fuel env [] pool = Some (Inr (), pool)"
| "healthLoop 0 env (k # rest) pool = None"
| "healthLoop (Suc fuel) env (k # rest) pool =
     (case map_of (browsers pool) k of
        None \<Rightarrow> healthLoop fuel env rest pool
      | Some wrapper \<Rightarrow>
          if inUse wrapper \<or> healthy env k then healthLoop fuel env rest pool
          else (case recycleBrowser env k pool of
                  (Inl e, pool1) \<Rightarrow> Some (Inl e, pool1)
                | (Inr u, pool1) \<Rightarrow>
                    healthLoop fuel env
                      (rest @ filter (\<lambda>k'. k' \<notin> set (map fst (browsers pool))) (map fst (browsers pool1)))
                      pool1))"

text \<open>
  One firing of the interval callback of \<open>startMaintenance\<close>. An exception inside is
  caught and logged by the outer \<open>try\<close>, which ends the tick with the state as it is.
\<close>

definition maintenanceTick :: "nat \<Rightarrow> Env \<Rightarrow> BrowserPool \<Rightarrow> BrowserPool option" where
  "maintenanceTick fuel env pool =
     (case healthLoop fuel env (map fst (browsers pool)) pool of
        None \<Rightarrow> None
      | Some (Inl e, pool1) \<Rightarrow> Some pool1
      | Some (Inr u, pool1) \<Rightarrow>
          (let availableCount = length (availableBrowsers pool1);
               minAvailable = min 3 (maxBrowsers pool1)
           in if availableCount < minAvailable \<and> length (browsers pool1) < maxBrowsers pool1 then
                (let toCreate = minAvailable - availableCount
                 in Some (snd (createBrowsers toCreate env pool1)))
              else Some pool1))"

text \<open>The pool as the constructor leaves it, and an environment in which nothing fails.\<close>

definition newPool :: "nat \<Rightarrow> BrowserPool" where
  "newPool m = \<lparr>browsers = [], availableBrowsers = [], browserQueue = [],
                isShuttingDown = False, maxBrowsers = m, nextId = 0\<rparr>"

definition calmEnv :: "int \<Rightarrow> Env" where
  "calmEnv t = \<lparr>now = t, launch_ok = (\<lambda>k. True), configure_ok = (\<lambda>k p. True), healthy = (\<lambda>k. True)\<rparr>"

section \<open>JavaScript numbers\<close>

text \<open>
  A JavaScript number is an IEEE-754 double. The numbers the scheduler computes with are
  real numbers here, and every arithmetic operation of the source is followed by
  \<open>round_double\<close>, the rounding of its exact result to the nearest double, ties to the
  even significand: a double has a significand of 53 bits, so the spacing of the doubles
  around \<open>x\<close> is \<open>2\<close> to the power \<open>\<lfloor>log\<^sub>2 |x|\<rfloor> - 52\<close>, and never less than
  \<open>2\<close> to the power \<open>-1074\<close> (the subnormal range). Overflow to infinity and NaN are not
  represented: the scheduler's numbers are epoch milliseconds, their differences, and
  products of those with a number below 1.
\<close>

definition round_half_even :: "real \<Rightarrow> int" where
  "round_half_even r =
     (let f = \<lfloor>r\<rfloor>; d = r - of_int f
      in if d < 1 / 2 then f else if 1 / 2 < d then f + 1 else if even f then f else f + 1)"

definition ulp_exponent :: "real \<Rightarrow> int" where
  "ulp_exponent x = max \<lfloor>log 2 \<bar>x\<bar>\<rfloor> (- 1022) - 52"

definition round_double :: "real \<Rightarrow> real" where
  "round_double x =
     (if x = 0 then 0
      else sgn x * (of_int (round_half_even (\<bar>x\<bar> / 2 powi ulp_exponent x))
                     * 2 powi ulp_exponent x))"

section \<open>The task scheduler (class TaskScheduler)\<close>

text \<open>
  The scheduler works on two collaborators: the \<open>tasks\<close> collection of the database,
  a list of task documents in insertion order (\<open>insertOne\<close> appends, \<open>findOne\<close> and
  \<open>updateOne\<close> take the first document with the given id), and the Bull queue, the list
  of the jobs added to it and not removed by \<open>cancelTask\<close>, in the order they were added
  (which of them Bull has run already is not represented).

  Modelling decisions:
  \<^item> A schedule descriptor is the interface \<open>TaskSchedule\<close>: its \<open>type\<close> and the three
    optional fields. Dates are milliseconds since the epoch. Reading \<open>getTime()\<close> of a
    field that is absent (\<open>scheduledFor!\<close>, \<open>distributionWindow!\<close>) throws a
    \<open>TypeError\<close>; an absent \<open>cron\<close> is handed to the queue as it is.
  \<^item> \<open>Math.random()\<close> is an input \<open>u\<close> of the environment, for which the language
    promises \<open>0 \<le> u < 1\<close>.
  \<^item> Of a task configuration the scheduler itself reads only \<open>config.search?.region\<close>;
    the rest of the payload is carried along unread.
  \<^item> Joi's \<open>schema.validate\<close> is a parameter \<open>joi\<close>: for the schema of a task type and
    a configuration it yields the error messages or the validated value.
  \<^item> The id Bull gives to a job added without a \<open>jobId\<close> option is an input: the
    environment names the id of the \<open>n\<close>-th job added.
  \<^item> The database and the queue do not fail.
\<close>

datatype TaskType =
  WARMUP | SEARCH | TARGET_VISIT | ORGANIC_BROWSE | VIDEO_WATCH | NEWS_READING | SHOPPING
  | SOCIAL_ACTIVITY

datatype TaskStatus = PENDING | SCHEDULED | RUNNING | COMPLETED | FAILED | CANCELLED

datatype ScheduleType = Immediate | Scheduled | Distributed | Cron

record DistributionWindow =
  window_start :: int
  window_end :: int

record TaskSchedule =
  schedule_type :: ScheduleType
  scheduledFor :: "int option"
  cron :: "string option"
  distributionWindow :: "DistributionWindow option"

record SearchConfig =
  query :: string
  region :: "string option"

record TaskConfig =
  search :: "SearchConfig option"
  payload :: string

record TaskResult =
  success :: bool
  result_error :: "string option"
  duration :: int

record Task =
  task_id :: string
  task_type :: TaskType
  profileId :: string
  priority :: nat
  status :: TaskStatus
  config :: TaskConfig
  schedule :: TaskSchedule
  result :: "TaskResult option"
  attempts :: nat
  task_createdAt :: int
  startedAt :: "int option"
  completedAt :: "int option"
  task_error :: "string option"

text \<open>\<open>Partial<Task>\<close>, the argument of \<open>createTask\<close>: the fields it reads, each optional.\<close>

record TaskData =
  data_type :: "TaskType option"
  data_profileId :: "string option"
  data_priority :: "nat option"
  data_config :: TaskConfig
  data_schedule :: "TaskSchedule option"

text \<open>
  The options of \<open>queue.add\<close>. \<open>repeat\<close> is \<open>None\<close> when no \<open>repeat\<close> option is given,
  and \<open>Some c\<close> for \<open>repeat: { cron: c }\<close>, where \<open>c\<close> is the descriptor's \<open>cron\<close> field.
\<close>

record JobOptions =
  job_priority :: nat
  job_attempts :: nat
  delay :: "real option"
  repeat :: "string option option"

record QueueJob =
  job_id :: string
  job_data :: Task
  job_opts :: JobOptions

record CandidateProfile =
  candidate_id :: string
  candidate_region :: string
  lastActive :: int

record Scheduler =
  db_tasks :: "Task list"
  queue :: "QueueJob list"
  jobs_added :: nat

record SchedEnv =
  date_now :: int
  math_random :: real
  uuidv4 :: string
  getHealthyProfiles :: "CandidateProfile list"
  TASK_RETRY_ATTEMPTS :: nat
  bull_job_id :: "nat \<Rightarrow> string"

datatype sched_error =
  UnknownTaskType
  | ValidationFailed string
  | NoHealthyProfiles
  | TaskNotFound string
  | OnlyFailedCanBeRetried
  | TypeError

datatype schema_name = search_schema | target_visit_schema | organic_browse_schema | warmup_schema

text \<open>\<open>taskConfigSchema[type]\<close>: the four keys of the table in \<open>validators.ts\<close>.\<close>

fun taskConfigSchema :: "TaskType \<Rightarrow> schema_name option" where
  "taskConfigSchema SEARCH = Some search_schema"
| "taskConfigSchema TARGET_VISIT = Some target_visit_schema"
| "taskConfigSchema ORGANIC_BROWSE = Some organic_browse_schema"
| "taskConfigSchema WARMUP = Some warmup_schema"
| "taskConfigSchema t = None"

definition validateTaskConfig ::
    "(schema_name \<Rightarrow> TaskConfig \<Rightarrow> string + TaskConfig) \<Rightarrow> TaskType option \<Rightarrow> TaskConfig
     \<Rightarrow> sched_error + TaskConfig" where
  "validateTaskConfig joi ty cfg =
     (case ty of
        None \<Rightarrow> Inl UnknownTaskType
      | Some t \<Rightarrow>
          (case taskConfigSchema t of
             None \<Rightarrow> Inl UnknownTaskType
           | Some schema \<Rightarrow>
               (case joi schema cfg of
                  Inl errors \<Rightarrow> Inl (ValidationFailed errors)
                | Inr v \<Rightarrow> Inr v)))"

fun findOne :: "string \<Rightarrow> Task list \<Rightarrow> Task option" where
  "findOne tid [] = None"
| "findOne tid (t # ts) = (if task_id t = tid then Some t else findOne tid ts)"

fun updateOne :: "string \<Rightarrow> (Task \<Rightarrow> Task) \<Rightarrow> Task list \<Rightarrow> Task list" where
  "updateOne tid f [] = []"
| "updateOne tid f (t # ts) = (if task_id t = tid then f t # ts else t # updateOne tid f ts)"

definition insertOne :: "Task \<Rightarrow> Scheduler \<Rightarrow> Scheduler" where
  "insertOne task st = st\<lparr>db_tasks := db_tasks st @ [task]\<rparr>"

definition queue_add :: "SchedEnv \<Rightarrow> Task \<Rightarrow> JobOptions \<Rightarrow> Scheduler \<Rightarrow> Scheduler" where
  "queue_add env task opts st =
     st\<lparr>queue := queue st @ [\<lparr>job_id = bull_job_id env (jobs_added st), job_data = task,
                               job_opts = opts\<rparr>],
        jobs_added := Suc (jobs_added st)\<rparr>"

text \<open>\<open>queue.getJob(id)\<close> followed by \<open>job.remove()\<close> when a job was found.\<close>

fun remove_job :: "string \<Rightarrow> QueueJob list \<Rightarrow> QueueJob list" where
  "remove_job jid [] = []"
| "remove_job jid (j # js) = (if job_id j = jid then js else j # remove_job jid js)"

definition scheduleTask :: "SchedEnv \<Rightarrow> Task \<Rightarrow> Scheduler \<Rightarrow> sched_error + Scheduler" where
  "scheduleTask env task st =
     (let jobOptions = \<lparr>job_priority = priority task, job_attempts = TASK_RETRY_ATTEMPTS env,
                        delay = None, repeat = None\<rparr>
      in case schedule_type (schedule task) of
           Immediate \<Rightarrow> Inr (queue_add env task jobOptions st)
         | Scheduled \<Rightarrow>
             (case scheduledFor (schedule task) of
                None \<Rightarrow> Inl TypeError
              | Some due \<Rightarrow>
                  (let delay0 = round_double (real_of_int due - real_of_int (date_now env))
                   in Inr (queue_add env task (jobOptions\<lparr>delay := Some delay0\<rparr>) st)))
         | Distributed \<Rightarrow>
             (case distributionWindow (schedule task) of
                None \<Rightarrow> Inl TypeError
              | Some window \<Rightarrow>
                  (let windowSize = round_double (real_of_int (window_end window)
                                                  - real_of_int (window_start window));
                       randomDelay = round_double (math_random env * windowSize);
                       scheduledTime = round_double (real_of_int (window_start window) + randomDelay);
                       delayMs = max 0 (round_double (scheduledTime - real_of_int (date_now env)))
                   in Inr (queue_add env task (jobOptions\<lparr>delay := Some delayMs\<rparr>) st)))
         | Cron \<Rightarrow>
             Inr (queue_add env task (jobOptions\<lparr>repeat := Some (cron (schedule task))\<rparr>) st))"

text \<open>
  Admission by schedule type, in the words of the specification, to compare
  \<open>scheduleTask\<close> with: an immediate job is admitted now; a fixed-delay job with a delay
  equal to \<open>scheduledFor - now\<close>, clamped to be at least 0; a distributed-window job with
  the delay \<open>max(0, (start + u * (end - start)) - now)\<close>, where \<open>u\<close> is the random number;
  a recurring job as a standing recurrence rule. These are the options the job is to be
  added with, and \<open>None\<close> when the descriptor lacks the field its type names.
\<close>

definition spec_admission :: "SchedEnv \<Rightarrow> Task \<Rightarrow> JobOptions option" where
  "spec_admission env task =
     (let admitted_now = \<lparr>job_priority = priority task, job_attempts = TASK_RETRY_ATTEMPTS env,
                          delay = None, repeat = None\<rparr>;
          t = real_of_int (date_now env)
      in case schedule_type (schedule task) of
           Immediate \<Rightarrow> Some admitted_now
         | Scheduled \<Rightarrow>
             (case scheduledFor (schedule task) of
                None \<Rightarrow> None
              | Some due \<Rightarrow>
                  Some (admitted_now\<lparr>delay := Some (max 0 (round_double (real_of_int due - t)))\<rparr>))
         | Distributed \<Rightarrow>
             (case distributionWindow (schedule task) of
                None \<Rightarrow> None
              | Some w \<Rightarrow>
                  (let s = real_of_int (window_start w); e = real_of_int (window_end w);
                       u = math_random env
                   in Some (admitted_now
                        \<lparr>delay := Some (max 0 (round_double
                             (round_double (s + round_double (u * round_double (e - s))) - t)))\<rparr>)))
         | Cron \<Rightarrow>
             (case cron (schedule task) of
                None \<Rightarrow> None
              | Some rule \<Rightarrow> Some (admitted_now\<lparr>repeat := Some (Some rule)\<rparr>)))"

text \<open>
  A fixed-delay descriptor whose time has passed (the case in which the clamping of the
  specification matters).
\<close>

definition past_due :: "SchedEnv \<Rightarrow> TaskSchedule \<Rightarrow> bool" where
  "past_due env s =
     (schedule_type s = Scheduled \<and>
      (case scheduledFor s of None \<Rightarrow> False | Some due \<Rightarrow> due < date_now env))"

definition selectBestProfile :: "SchedEnv \<Rightarrow> Task \<Rightarrow> CandidateProfile option" where
  "selectBestProfile env task =
     (let profiles = getHealthyProfiles env
      in if profiles = [] then None
         else
           (let suitable =
                  (case search (config task) of
                     None \<Rightarrow> profiles
                   | Some s \<Rightarrow>
                       (case region s of
                          None \<Rightarrow> profiles
                        | Some r \<Rightarrow>
                            if r = [] then profiles
                            else filter (\<lambda>p. candidate_region p = r) profiles))
            in case sort_key lastActive suitable of
                 [] \<Rightarrow> None
               | p # ps \<Rightarrow> Some p))"

text \<open>The object literal \<open>task\<close> that \<open>createTask\<close> builds from its argument.\<close>

definition newTask :: "SchedEnv \<Rightarrow> TaskData \<Rightarrow> TaskType \<Rightarrow> TaskConfig \<Rightarrow> Task" where
  "newTask env taskData ty validatedConfig =
     \<lparr>task_id = ''task-'' @ uuidv4 env,
      task_type = ty,
      profileId = (case data_profileId taskData of None \<Rightarrow> [] | Some p \<Rightarrow> p),
      priority = (case data_priority taskData of None \<Rightarrow> 5 | Some n \<Rightarrow> if n = 0 then 5 else n),
      status = PENDING,
      config = validatedConfig,
      schedule = (case data_schedule taskData of
                    None \<Rightarrow> \<lparr>schedule_type = Immediate, scheduledFor = None, cron = None,
                              distributionWindow = None\<rparr>
                  | Some s \<Rightarrow> s),
      result = None,
      attempts = 0,
      task_createdAt = date_now env,
      startedAt = None, completedAt = None, task_error = None\<rparr>"

text \<open>
  The end of \<open>createTask\<close>, from \<open>insertOne\<close> on: an exception of \<open>scheduleTask\<close> leaves
  the function after the task was stored.
\<close>

definition store_and_schedule :: "SchedEnv \<Rightarrow> Task \<Rightarrow> Scheduler \<Rightarrow> (sched_error + Task) \<times> Scheduler" where
  "store_and_schedule env task st =
     (let st1 = insertOne task st
      in case scheduleTask env task st1 of
           Inl e \<Rightarrow> (Inl e, st1)
         | Inr st2 \<Rightarrow> (Inr task, st2))"

definition createTask ::
    "(schema_name \<Rightarrow> TaskConfig \<Rightarrow> string + TaskConfig) \<Rightarrow> SchedEnv \<Rightarrow> TaskData \<Rightarrow> Scheduler
     \<Rightarrow> (sched_error + Task) \<times> Scheduler" where
  "createTask joi env taskData st =
     (case validateTaskConfig joi (data_type taskData) (data_config taskData) of
        Inl e \<Rightarrow> (Inl e, st)
      | Inr validatedConfig \<Rightarrow>
          (case data_type taskData of
             None \<Rightarrow> (Inl UnknownTaskType, st)
           | Some ty \<Rightarrow>
               (let task = newTask env taskData ty validatedConfig
                in if profileId task = [] \<and> task_type task \<noteq> WARMUP then
                     (case selectBestProfile env task of
                        None \<Rightarrow> (Inl NoHealthyProfiles, st)
                      | Some p \<Rightarrow> store_and_schedule env (task\<lparr>profileId := candidate_id p\<rparr>) st)
                   else store_and_schedule env task st)))"

definition cancelTask :: "string \<Rightarrow> Scheduler \<Rightarrow> Scheduler" where
  "cancelTask taskId st =
     st\<lparr>db_tasks := updateOne taskId (\<lambda>t. t\<lparr>status := CANCELLED\<rparr>) (db_tasks st),
        queue := remove_job taskId (queue st)\<rparr>"

definition retryTask :: "SchedEnv \<Rightarrow> string \<Rightarrow> Scheduler \<Rightarrow> (sched_error + unit) \<times> Scheduler" where
  "retryTask env taskId st =
     (case findOne taskId (db_tasks st) of
        None \<Rightarrow> (Inl (TaskNotFound taskId), st)
      | Some task0 \<Rightarrow>
          if status task0 \<noteq> FAILED then (Inl OnlyFailedCanBeRetried, st)
          else
            (let task = task0\<lparr>status := PENDING, attempts := 0\<rparr>;
                 st1 = st\<lparr>db_tasks := updateOne taskId (\<lambda>t. t\<lparr>status := PENDING, attempts := 0\<rparr>)
                                         (db_tasks st)\<rparr>
             in case scheduleTask env task st1 of
                  Inl e \<Rightarrow> (Inl e, st1)
                | Inr st2 \<Rightarrow> (Inr (), st2)))"

definition updateTaskStatus ::
    "SchedEnv \<Rightarrow> string \<Rightarrow> TaskStatus \<Rightarrow> string option \<Rightarrow> Scheduler \<Rightarrow> Scheduler" where
  "updateTaskStatus env taskId s err st =
     st\<lparr>db_tasks :=
          updateOne taskId
            (\<lambda>t. (let t1 = t\<lparr>status := s\<rparr>;
                       t2 = (if s = RUNNING then t1\<lparr>startedAt := Some (date_now env)\<rparr> else t1);
                       t3 = (if s = COMPLETED then t2\<lparr>completedAt := Some (date_now env)\<rparr> else t2)
                   in if s = FAILED then t3\<lparr>completedAt := Some (date_now env), task_error := err\<rparr>
                      else t3))
            (db_tasks st)\<rparr>"

definition updateTaskResult :: "SchedEnv \<Rightarrow> string \<Rightarrow> TaskResult \<Rightarrow> Scheduler \<Rightarrow> Scheduler" where
  "updateTaskResult env taskId r st =
     st\<lparr>db_tasks :=
          updateOne taskId
            (\<lambda>t. t\<lparr>status := (if success r then COMPLETED else FAILED), result := Some r,
                    completedAt := Some (date_now env)\<rparr>)
            (db_tasks st)\<rparr>"

text \<open>
  What the body of \<open>processTask\<close> between the status update to \<open>RUNNING\<close> and the end
  of the \<open>try\<close> block does is an input: it returns a result, it throws before a result
  was stored (profile missing or unhealthy, executor failure), or it throws after
  \<open>updateTaskResult\<close> (while updating profile statistics or metrics).
\<close>

datatype exec_outcome = Returned TaskResult | Thrown string | ThrownAfterResult TaskResult string

definition on_failure :: "SchedEnv \<Rightarrow> Task \<Rightarrow> nat \<Rightarrow> string \<Rightarrow> Scheduler \<Rightarrow> Scheduler" where
  "on_failure env task attemptsMade msg st =
     (if int attemptsMade \<ge> int (TASK_RETRY_ATTEMPTS env) - 1
      then updateTaskStatus env (task_id task) FAILED (Some msg) st
      else st)"

definition processTask ::
    "SchedEnv \<Rightarrow> Task \<Rightarrow> nat \<Rightarrow> exec_outcome \<Rightarrow> Scheduler \<Rightarrow> (string + TaskResult) \<times> Scheduler" where
  "processTask env task attemptsMade outcome st =
     (let st1 = updateTaskStatus env (task_id task) RUNNING None st
      in case outcome of
           Returned r \<Rightarrow> (Inr r, updateTaskResult env (task_id task) r st1)
         | Thrown msg \<Rightarrow> (Inl msg, on_failure env task attemptsMade msg st1)
         | ThrownAfterResult r msg \<Rightarrow>
             (Inl msg, on_failure env task attemptsMade msg
                         (updateTaskResult env (task_id task) r st1)))"

text \<open>
  The loop \<open>for (const task of tasks) await this.scheduleTask(task)\<close> of
  \<open>loadPendingTasks\<close> and of the periodic scan: the first exception ends it.
\<close>

fun scheduleAll :: "SchedEnv \<Rightarrow> Task list \<Rightarrow> Scheduler \<Rightarrow> (sched_error + unit) \<times> Scheduler" where
  "scheduleAll env [] st = (Inr (), st)"
| "scheduleAll env (t # ts) st =
     (case scheduleTask env t st of
        Inl e \<Rightarrow> (Inl e, st)
      | Inr st1 \<Rightarrow> scheduleAll env ts st1)"

text \<open>
  The query of the periodic scan: status \<open>SCHEDULED\<close> and
  \<open>schedule.scheduledFor \<le> now\<close> (a document without that field does not match).
\<close>

definition scheduledDue :: "SchedEnv \<Rightarrow> Task list \<Rightarrow> Task list" where
  "scheduledDue env ts =
     filter (\<lambda>t. status t = SCHEDULED \<and>
                  (case scheduledFor (schedule t) of Some due \<Rightarrow> due \<le> date_now env | None \<Rightarrow> False))
       ts"

definition scanTick :: "SchedEnv \<Rightarrow> Scheduler \<Rightarrow> (sched_error + unit) \<times> Scheduler" where
  "scanTick env st = scheduleAll env (scheduledDue env (db_tasks st)) st"

definition loadPendingTasks :: "SchedEnv \<Rightarrow> Scheduler \<Rightarrow> (sched_error + unit) \<times> Scheduler" where
  "loadPendingTasks env st =
     scheduleAll env (filter (\<lambda>t. status t = PENDING \<or> status t = SCHEDULED) (db_tasks st)) st"

text \<open>Sequences of scheduler operations, each with the environment it runs in.\<close>

datatype sched_op =
  CreateTask TaskData
  | CancelTask string
  | RetryTask string
  | ProcessTask Task nat exec_outcome
  | LoadPendingTasks
  | ScanTick

fun sched_step ::
    "(schema_name \<Rightarrow> TaskConfig \<Rightarrow> string + TaskConfig) \<Rightarrow> SchedEnv \<times> sched_op \<Rightarrow> Scheduler
     \<Rightarrow> Scheduler" where
  "sched_step joi (env, CreateTask d) st = snd (createTask joi env d st)"
| "sched_step joi (env, CancelTask tid) st = cancelTask tid st"
| "sched_step joi (env, RetryTask tid) st = snd (retryTask env tid st)"
| "sched_step joi (env, ProcessTask task n outcome) st = snd (processTask env task n outcome st)"
| "sched_step joi (env, LoadPendingTasks) st = snd (loadPendingTasks env st)"
| "sched_step joi (env, ScanTick) st = snd (scanTick env st)"

definition sched_run ::
    "(schema_name \<Rightarrow> TaskConfig \<Rightarrow> string + TaskConfig) \<Rightarrow> (SchedEnv \<times> sched_op) list \<Rightarrow> Scheduler
     \<Rightarrow> Scheduler" where
  "sched_run joi ops st = foldl (\<lambda>s op. sched_step joi op s) st ops"

definition newScheduler :: Scheduler where
  "newScheduler = \<lparr>db_tasks = [], queue = [], jobs_added = 0\<rparr>"

text \<open>
  The set of values the stored status of every task is claimed to stay in.
\<close>

definition never_scheduled :: "Task list \<Rightarrow> bool" where
  "never_scheduled ts =
     list_all (\<lambda>t. status t \<in> {PENDING, RUNNING, COMPLETED, FAILED, CANCELLED}) ts"

section \<open>Concrete pools, stores and environments\<close>

text \<open>A run of \<open>acquireBrowser\<close> calls with no release in between, and what each returned.\<close>

fun acquireMany :: "Env \<Rightarrow> Profile list \<Rightarrow> BrowserPool \<Rightarrow> acquire_result list \<times> BrowserPool" where
  "acquireMany env [] pool = ([], pool)"
| "acquireMany env (p # ps) pool =
     (case acquireBrowser env p pool of
        (r, pool1) \<Rightarrow> (case acquireMany env ps pool1 of (rs, pool2) \<Rightarrow> (r # rs, pool2)))"

text \<open>
  A pool of maximum size 6 after \<open>initialize\<close> (which creates \<open>min(6, 5) = 5\<close> browsers)
  and five acquisitions: all five browsers are leased, the available list is empty.
\<close>

definition busyPool :: BrowserPool where
  "busyPool =
     snd (acquireMany (calmEnv 0) [''a'', ''b'', ''c'', ''d'', ''e'']
            (snd (initialize (calmEnv 0) (newPool 6))))"

text \<open>
  A pool of maximum size 1 after \<open>initialize\<close>, one acquisition by \<open>a\<close> (which gets
  browser 0) and a second one by \<open>b\<close> (which is suspended on the wait list); and the
  same pool after a third acquisition, by \<open>c\<close>, which is suspended after \<open>b\<close>.
\<close>

definition lonePool :: BrowserPool where
  "lonePool = snd (initialize (calmEnv 0) (newPool 1))"

definition queuedPool :: BrowserPool where
  "queuedPool = snd (acquireMany (calmEnv 0) [''a'', ''b''] lonePool)"

definition twoQueuedPool :: BrowserPool where
  "twoQueuedPool = snd (acquireBrowser (calmEnv 1) ''c'' queuedPool)"

definition acceptAll :: "schema_name \<Rightarrow> TaskConfig \<Rightarrow> string + TaskConfig" where
  "acceptAll schema cfg = Inr cfg"


definition sampleEnv :: "int \<Rightarrow> SchedEnv" where
  "sampleEnv t =
     \<lparr>date_now = t, math_random = 1 / 2, uuidv4 = ''u1'', getHealthyProfiles = [],
      TASK_RETRY_ATTEMPTS = 3, bull_job_id = (\<lambda>n. replicate (Suc n) CHR ''j'')\<rparr>"

text \<open>
  An environment in which \<open>Math.random()\<close> returns the largest double below 1 that a
  52-bit random significand gives, \<open>1 - 2\<^sup>-\<^sup>5\<^sup>2\<close>.
\<close>

definition edgeEnv :: "int \<Rightarrow> SchedEnv" where
  "edgeEnv t = (sampleEnv t)\<lparr>math_random := 1 - 1 / 2 ^ 52\<rparr>"

text \<open>The schedule descriptors \<open>{type: 'immediate'}\<close>,
  \<open>{type: 'scheduled', scheduledFor}\<close>, \<open>{type: 'distributed', distributionWindow}\<close>,
  \<open>{type: 'cron', cron}\<close>, and \<open>{type: 'scheduled'}\<close> with nothing else.\<close>

definition immediately :: TaskSchedule where
  "immediately =
     \<lparr>schedule_type = Immediate, scheduledFor = None, cron = None, distributionWindow = None\<rparr>"

definition scheduledAt :: "int \<Rightarrow> TaskSchedule" where
  "scheduledAt due = immediately\<lparr>schedule_type := Scheduled, scheduledFor := Some due\<rparr>"

definition distributedOver :: "int \<Rightarrow> int \<Rightarrow> TaskSchedule" where
  "distributedOver s e =
     immediately\<lparr>schedule_type := Distributed,
                 distributionWindow := Some \<lparr>window_start = s, window_end = e\<rparr>\<rparr>"


definition scheduledBare :: TaskSchedule where
  "scheduledBare = immediately\<lparr>schedule_type := Scheduled\<rparr>"

definition sampleData :: "TaskType \<Rightarrow> string option \<Rightarrow> TaskSchedule \<Rightarrow> TaskData" where
  "sampleData ty p s =
     \<lparr>data_type = Some ty, data_profileId = p, data_priority = None,
      data_config = \<lparr>search = None, payload = []\<rparr>, data_schedule = Some s\<rparr>"

definition sampleTask :: Task where
  "sampleTask =
     newTask (sampleEnv 0) (sampleData WARMUP (Some ''p1'') immediately) WARMUP
       \<lparr>search = None, payload = []\<rparr>"

text \<open>
  A store holding one task, \<open>task-u1\<close>: as submitted, while it is running, after it
  completed, and after its last attempt failed.
\<close>

definition createdStore :: Scheduler where
  "createdStore =
     snd (createTask acceptAll (sampleEnv 0) (sampleData WARMUP (Some ''p1'') immediately)
            newScheduler)"

definition runningStore :: Scheduler where
  "runningStore = updateTaskStatus (sampleEnv 1) ''task-u1'' RUNNING None createdStore"

definition completedStore :: Scheduler where
  "completedStore =
     snd (processTask (sampleEnv 1) sampleTask 0
            (Returned \<lparr>success = True, result_error = None, duration = 10\<rparr>) createdStore)"

definition failedStore :: Scheduler where
  "failedStore = snd (processTask (sampleEnv 1) sampleTask 2 (Thrown ''boom'') createdStore)"

text \<open>
  A store holding one fixed-delay task, \<open>task-u1\<close>, submitted at time 0 for time 1000,
  after its third and last attempt, started at time 1000, failed.
\<close>

definition failedScheduledStore :: Scheduler where
  "failedScheduledStore =
     snd (processTask (sampleEnv 1000) (sampleTask\<lparr>schedule := scheduledAt 1000\<rparr>) 2 (Thrown ''boom'')
            (snd (createTask acceptAll (sampleEnv 0)
                    (sampleData WARMUP (Some ''p1'') (scheduledAt 1000)) newScheduler)))"

section \<open>Properties of the browser pool\<close>

lemmas pool_defs =
  acquireBrowser_def getAvailableBrowser_def newPool_def calmEnv_def createBrowser_def
  acquire_finish_def update_wrapper_def browsers_set_def Let_def initialize_def
  releaseBrowser_def findWrapperByBrowser_def shouldRecycleBrowser_def recycleBrowser_def
  closeBrowser_def waitForBrowser_def maintenanceTick_def

lemma busyPool_eval:
  "map fst (browsers busyPool) = [0, 1, 2, 3, 4] \<and> availableBrowsers busyPool = []
   \<and> map (\<lambda>(k, w). inUse w) (browsers busyPool) = [True, True, True, True, True]
   \<and> maxBrowsers busyPool = 6 \<and> browserQueue busyPool = []"
  by code_simp

lemma queuedPool_eval:
  "fst (acquireMany (calmEnv 0) [''a'', ''b''] lonePool) = [Acquired 0, Suspended]
   \<and> browserQueue queuedPool = [''b''] \<and> availableBrowsers queuedPool = []
   \<and> map fst (browsers queuedPool) = [0] \<and> maxBrowsers queuedPool = 1"
  by code_simp

text \<open>
  What \<open>acquireBrowser\<close> does when it creates a browser on demand: \<open>createBrowser\<close> has
  put the new id on the available list, and nothing takes it off before the browser is
  handed to the caller.
\<close>

lemma acquire_on_demand_stays_available:
  assumes "\<not> isShuttingDown pool" and "availableBrowsers pool = []"
    and "length (browsers pool) < maxBrowsers pool"
    and "launch_ok env (nextId pool)" and "configure_ok env (nextId pool) p"
  shows "fst (acquireBrowser env p pool) = Acquired (nextId pool)
       \<and> availableBrowsers (snd (acquireBrowser env p pool)) = [nextId pool]"
  using assms
  by (simp add: acquireBrowser_def getAvailableBrowser_def createBrowser_def acquire_finish_def
      update_wrapper_def Let_def)

text \<open>
  Claim C1 (no browser is leased to two callers at once; a browser created on demand in
  \<open>acquireBrowser\<close>, or handed to a queued waiter by \<open>releaseBrowser\<close>, is not claimable
  from the available list). The code does otherwise, on both paths.
  On the pool of maximum size 6, seven acquisitions with no release in between return the
  browsers 0 to 4 that \<open>initialize\<close> created, then browser 5, created on demand, and
  then browser 5 again, taken from the available list where its creation left it.
  On the pool of maximum size 1 with \<open>a\<close> holding browser 0 and \<open>b\<close> waiting, the release
  of browser 0 resumes \<open>b\<close> with browser 0 and leaves its id on the available list, so
  that the next acquisition, by \<open>c\<close>, returns browser 0 as well.
\<close>

theorem acquireBrowser_double_lease:
  "fst (acquireMany (calmEnv 0) [''a'', ''b'', ''c'', ''d'', ''e'', ''f'', ''g'']
          (snd (initialize (calmEnv 0) (newPool 6))))
     = [Acquired 0, Acquired 1, Acquired 2, Acquired 3, Acquired 4, Acquired 5, Acquired 5]
   \<and> fst (acquireMany (calmEnv 0) [''a'', ''b''] lonePool) = [Acquired 0, Suspended]
   \<and> fst (releaseBrowser (calmEnv 1) 0 queuedPool) = Released (Some (''b'', Acquired 0))
   \<and> availableBrowsers (snd (releaseBrowser (calmEnv 1) 0 queuedPool)) = [0]
   \<and> fst (acquireBrowser (calmEnv 2) ''c'' (snd (releaseBrowser (calmEnv 1) 0 queuedPool)))
       = Acquired 0"
  by code_simp

text \<open>
  The replacement made by \<open>recycleBrowser\<close> does keep the pool within its maximum: it
  closes first and creates one browser only when the count is below the maximum.
\<close>

lemma length_closeBrowser: "length (browsers (closeBrowser k pool)) \<le> length (browsers pool)"
  by (simp add: closeBrowser_def split: option.splits)

lemma maxBrowsers_closeBrowser: "maxBrowsers (closeBrowser k pool) = maxBrowsers pool"
  by (simp add: closeBrowser_def split: option.splits)

lemma length_createBrowser:
  "length (browsers (snd (createBrowser env pool))) \<le> Suc (length (browsers pool))"
  by (simp add: createBrowser_def browsers_set_def Let_def)

lemma maxBrowsers_createBrowser: "maxBrowsers (snd (createBrowser env pool)) = maxBrowsers pool"
  by (simp add: createBrowser_def Let_def)

lemma recycleBrowser_within_max:
  assumes "length (browsers pool) \<le> maxBrowsers pool"
  shows "length (browsers (snd (recycleBrowser env k pool))) \<le> maxBrowsers pool"
proof -
  let ?p = "closeBrowser k pool"
  have c: "length (browsers ?p) \<le> maxBrowsers pool"
    using assms length_closeBrowser [of k pool] by simp
  show ?thesis
  proof (cases "\<not> isShuttingDown ?p \<and> length (browsers ?p) < maxBrowsers ?p")
    case True
    then have "snd (recycleBrowser env k pool) = snd (createBrowser env ?p)"
      by (simp add: recycleBrowser_def Let_def split: prod.splits sum.splits)
    moreover have "length (browsers (snd (createBrowser env ?p))) \<le> maxBrowsers pool"
      using True length_createBrowser [of env ?p] maxBrowsers_closeBrowser [of k pool] by simp
    ultimately show ?thesis by simp
  next
    case False
    then have "snd (recycleBrowser env k pool) = ?p"
      by (auto simp add: recycleBrowser_def Let_def)
    then show ?thesis using c by simp
  qed
qed

text \<open>
  Claim C2 (the number of browsers tracked by the pool never exceeds the maximum, also
  after a maintenance top-up). The code does otherwise in the top-up: the guard
  \<open>this.browsers.size < maxBrowsers\<close> is tested once, before a loop that creates
  \<open>minAvailable - availableCount\<close> browsers. On the pool of maximum size 6 whose five
  browsers are all leased, one maintenance tick creates three browsers: the pool then
  tracks eight.
\<close>

theorem maintenance_top_up_exceeds_max:
  "maxBrowsers busyPool = 6 \<and> length (browsers busyPool) = 5
   \<and> map_option (\<lambda>pool. (length (browsers pool), maxBrowsers pool, availableBrowsers pool))
       (maintenanceTick 5 (calmEnv 30000) busyPool) = Some (8, 6, [5, 6, 7])"
  by code_simp

text \<open>The wait list under each operation of the pool.\<close>

lemma browserQueue_update_wrapper [simp]:
  "browserQueue (update_wrapper k f pool) = browserQueue pool"
  by (simp add: update_wrapper_def)

lemma browserQueue_acquire_finish [simp]:
  "browserQueue (snd (acquire_finish env p w pool)) = browserQueue pool"
  by (simp add: acquire_finish_def)

lemma acquire_finish_not_Suspended [simp]: "fst (acquire_finish env p w pool) \<noteq> Suspended"
  by (simp add: acquire_finish_def)

lemma browserQueue_createBrowser [simp]:
  "browserQueue (snd (createBrowser env pool)) = browserQueue pool"
  by (simp add: createBrowser_def Let_def)

lemma browserQueue_closeBrowser [simp]: "browserQueue (closeBrowser k pool) = browserQueue pool"
  by (simp add: closeBrowser_def split: option.splits)

lemma browserQueue_recycleBrowser [simp]:
  "browserQueue (snd (recycleBrowser env k pool)) = browserQueue pool"
proof -
  obtain r pool2 where cb: "createBrowser env (closeBrowser k pool) = (r, pool2)"
    by (cases "createBrowser env (closeBrowser k pool)")
  have "browserQueue (snd (createBrowser env (closeBrowser k pool))) = browserQueue pool"
    by simp
  with cb have "browserQueue pool2 = browserQueue pool" by simp
  then show ?thesis using cb by (cases r) (simp_all add: recycleBrowser_def Let_def)
qed

lemma browserQueue_acquireBrowser:
  "browserQueue (snd (acquireBrowser env p pool))
     = browserQueue pool @ (if fst (acquireBrowser env p pool) = Suspended then [p] else [])"
proof -
  have g: "browserQueue (snd (getAvailableBrowser pool)) = browserQueue pool"
    by (simp add: getAvailableBrowser_def split: list.splits)
  obtain ow pool1 where ga: "getAvailableBrowser pool = (ow, pool1)" by (cases "getAvailableBrowser pool")
  with g have q1: "browserQueue pool1 = browserQueue pool" by simp
  show ?thesis
  proof (cases "isShuttingDown pool")
    case True
    then show ?thesis by (simp add: acquireBrowser_def)
  next
    case False
    show ?thesis
    proof (cases ow)
      case (Some w)
      then show ?thesis using False ga q1 by (simp add: acquireBrowser_def)
    next
      case None
      show ?thesis
      proof (cases "length (browsers pool1) < maxBrowsers pool1")
        case False
        then show ?thesis using \<open>\<not> isShuttingDown pool\<close> ga None q1
          by (simp add: acquireBrowser_def waitForBrowser_def)
      next
        case True
        obtain r pool2 where cb: "createBrowser env pool1 = (r, pool2)" by (cases "createBrowser env pool1")
        have "browserQueue (snd (createBrowser env pool1)) = browserQueue pool1" by simp
        with cb q1 have q2: "browserQueue pool2 = browserQueue pool" by simp
        show ?thesis using \<open>\<not> isShuttingDown pool\<close> ga None True cb q2
          by (cases r) (simp_all add: acquireBrowser_def)
      qed
    qed
  qed
qed

lemma browserQueue_releaseBrowser:
  "browserQueue (snd (releaseBrowser env b pool))
     = (case fst (releaseBrowser env b pool) of
          Released (Some served) \<Rightarrow> tl (browserQueue pool)
        | Released None \<Rightarrow> browserQueue pool
        | ReleaseFailed e \<Rightarrow> browserQueue pool)"
proof (cases "findWrapperByBrowser pool b")
  case None
  then show ?thesis by (simp add: releaseBrowser_def)
next
  case (Some w0)
  let ?w = "w0\<lparr>inUse := False, tasksCompleted := Suc (tasksCompleted w0), profile := None\<rparr>"
  let ?p1 = "update_wrapper (wrapper_id w0)
               (\<lambda>w. w\<lparr>inUse := False, tasksCompleted := Suc (tasksCompleted w), profile := None\<rparr>) pool"
  show ?thesis
  proof (cases "tasksCompleted ?w \<ge> 50 \<or> shouldRecycleBrowser env ?w")
    case True
    obtain r pool2 where rc: "recycleBrowser env (wrapper_id w0) ?p1 = (r, pool2)"
      by (cases "recycleBrowser env (wrapper_id w0) ?p1")
    have "browserQueue (snd (recycleBrowser env (wrapper_id w0) ?p1)) = browserQueue ?p1" by simp
    with rc have q: "browserQueue pool2 = browserQueue pool" by simp
    have "releaseBrowser env b pool
        = (case r of Inr u \<Rightarrow> (Released None, pool2) | Inl e \<Rightarrow> (ReleaseFailed e, pool2))"
      using Some True rc by (simp add: releaseBrowser_def Let_def)
    then show ?thesis using q by (cases r) simp_all
  next
    case False
    let ?p2 = "?p1\<lparr>availableBrowsers := availableBrowsers ?p1 @ [wrapper_id w0]\<rparr>"
    show ?thesis
    proof (cases "browserQueue pool")
      case Nil
      then have "releaseBrowser env b pool = (Released None, ?p2)"
        using Some False by (simp add: releaseBrowser_def Let_def)
      then show ?thesis using Nil by simp
    next
      case (Cons callback rest)
      obtain r pool3 where af: "acquire_finish env callback ?w (?p2\<lparr>browserQueue := rest\<rparr>) = (r, pool3)"
        by (cases "acquire_finish env callback ?w (?p2\<lparr>browserQueue := rest\<rparr>)")
      have "browserQueue (snd (acquire_finish env callback ?w (?p2\<lparr>browserQueue := rest\<rparr>))) = rest"
        by simp
      with af have q: "browserQueue pool3 = rest" by simp
      have "releaseBrowser env b pool = (Released (Some (callback, r)), pool3)"
        using Some False Cons af by (simp add: releaseBrowser_def Let_def)
      then show ?thesis using q Cons by simp
    qed
  qed
qed

lemma browserQueue_createBrowsers [simp]:
  "browserQueue (snd (createBrowsers n env pool)) = browserQueue pool"
proof (induction n arbitrary: pool)
  case 0
  then show ?case by simp
next
  case (Suc n)
  obtain r pool1 where cb: "createBrowser env pool = (r, pool1)" by (cases "createBrowser env pool")
  have "browserQueue (snd (createBrowser env pool)) = browserQueue pool" by simp
  with cb have q: "browserQueue pool1 = browserQueue pool" by simp
  show ?case using cb q Suc [of pool1] by (cases r) simp_all
qed

lemma browserQueue_healthLoop:
  "healthLoop fuel env pending pool = Some (r, pool') \<Longrightarrow> browserQueue pool' = browserQueue pool"
proof (induction fuel env pending pool rule: healthLoop.induct)
  case (1 fuel env pool)
  then show ?case by simp
next
  case (2 env k rest pool)
  then show ?case by simp
next
  case (3 fuel env k rest pool)
  show ?case
  proof (cases "map_of (browsers pool) k")
    case None
    then show ?thesis using 3 by simp
  next
    case (Some wrapper)
    show ?thesis
    proof (cases "inUse wrapper \<or> healthy env k")
      case True
      then show ?thesis using 3 Some by simp
    next
      case False
      obtain rr pool1 where rc: "recycleBrowser env k pool = (rr, pool1)"
        by (cases "recycleBrowser env k pool")
      have "browserQueue (snd (recycleBrowser env k pool)) = browserQueue pool" by simp
      with rc have q: "browserQueue pool1 = browserQueue pool" by simp
      show ?thesis
      proof (cases rr)
        case (Inl e)
        then show ?thesis using 3(4) Some False rc q by auto
      next
        case (Inr u)
        then show ?thesis using 3(3) [OF Some False rc [symmetric] Inr] 3(4) Some False rc q
          by auto
      qed
    qed
  qed
qed

lemma browserQueue_maintenanceTick:
  assumes "maintenanceTick fuel env pool = Some pool'"
  shows "browserQueue pool' = browserQueue pool"
proof (cases "healthLoop fuel env (map fst (browsers pool)) pool")
  case None
  then show ?thesis using assms by (simp add: maintenanceTick_def)
next
  case (Some a)
  obtain r pool1 where a: "a = (r, pool1)" by (cases a)
  have q: "browserQueue pool1 = browserQueue pool"
    using Some a browserQueue_healthLoop by simp
  show ?thesis using assms Some a q
    by (cases r) (auto simp add: maintenanceTick_def Let_def split: if_splits)
qed

text \<open>
  Claim C3, as amended: the wait list is first-in first-out. An \<open>acquireBrowser\<close> call
  that is suspended joins the wait list at its end, and no other call of
  \<open>acquireBrowser\<close> changes the list; a \<open>releaseBrowser\<close> call changes the list only by
  taking its head off, when it serves that caller; a maintenance tick leaves the list
  as it is. For every release of a tracked
  browser performed while the wait list is non-empty and the recycling test of
  \<open>releaseBrowser\<close> does not fire (the completed-task counter stays below 50 after its
  increment, and the browser is at most one hour old), the released browser is handed to
  the longest-waiting caller, the head of the wait list, which is removed from the list
  and resumes its \<open>acquireBrowser\<close> call with that browser (it returns the browser when
  configuring it for the caller's profile succeeds).
\<close>

theorem releaseBrowser_handoff:
  assumes "findWrapperByBrowser pool b = Some w"
    and "Suc (tasksCompleted w) < 50"
    and "now env - createdAt w \<le> 3600000"
    and "browserQueue pool = callback # rest"
  shows "fst (releaseBrowser env b pool) =
           Released (Some (callback, if configure_ok env (wrapper_id w) callback then Acquired b
                                     else Rejected ConfigureFailed))
       \<and> browserQueue (snd (releaseBrowser env b pool)) = rest
       \<and> browserQueue (snd (acquireBrowser env' p pool'))
           = browserQueue pool' @ (if fst (acquireBrowser env' p pool') = Suspended then [p] else [])
       \<and> browserQueue (snd (releaseBrowser env' b' pool'))
           = (case fst (releaseBrowser env' b' pool') of
                Released (Some served) \<Rightarrow> tl (browserQueue pool')
              | Released None \<Rightarrow> browserQueue pool'
              | ReleaseFailed e \<Rightarrow> browserQueue pool')
       \<and> (maintenanceTick fuel env' pool' = Some pool'' \<longrightarrow> browserQueue pool'' = browserQueue pool')"
proof -
  have b: "browser w = b"
    using assms(1) by (auto simp: findWrapperByBrowser_def find_Some_iff)
  have "fst (releaseBrowser env b pool) =
           Released (Some (callback, if configure_ok env (wrapper_id w) callback then Acquired b
                                     else Rejected ConfigureFailed))
       \<and> browserQueue (snd (releaseBrowser env b pool)) = rest"
    using assms(2,3,4) b
    by (simp add: releaseBrowser_def assms(1) Let_def shouldRecycleBrowser_def acquire_finish_def
        update_wrapper_def)
  then show ?thesis
    using browserQueue_acquireBrowser [of env' p pool'] browserQueue_releaseBrowser [of env' b' pool']
      browserQueue_maintenanceTick [of fuel env' pool' pool'']
    by simp
qed

text \<open>
  With \<open>a\<close> holding the only browser, \<open>b\<close> suspended first and \<open>c\<close> suspended after it,
  the first release serves \<open>b\<close> and leaves \<open>c\<close> waiting; the next release serves \<open>c\<close>.
\<close>

theorem releaseBrowser_handoff_witness:
  "fst (acquireBrowser (calmEnv 1) ''c'' queuedPool) = Suspended
   \<and> browserQueue queuedPool = [''b'']
   \<and> browserQueue twoQueuedPool = [''b'', ''c'']
   \<and> fst (releaseBrowser (calmEnv 7) 0 twoQueuedPool) = Released (Some (''b'', Acquired 0))
   \<and> browserQueue (snd (releaseBrowser (calmEnv 7) 0 twoQueuedPool)) = [''c'']
   \<and> fst (releaseBrowser (calmEnv 8) 0 (snd (releaseBrowser (calmEnv 7) 0 twoQueuedPool)))
       = Released (Some (''c'', Acquired 0))
   \<and> browserQueue (snd (releaseBrowser (calmEnv 8) 0 (snd (releaseBrowser (calmEnv 7) 0 twoQueuedPool))))
       = []"
  using releaseBrowser_handoff [of twoQueuedPool 0
     "\<lparr>wrapper_id = 0, browser = 0, profile = Some ''a'', createdAt = 0, lastUsed = 0,
       tasksCompleted = 0, inUse = True\<rparr>" "calmEnv 7" "''b''" "[''c'']"
     "calmEnv 1" "''c''" queuedPool]
  by code_simp

text \<open>
  The claim as first stated fails: \<open>releaseBrowser\<close> tests for recycling before it looks
  at the wait list. With \<open>a\<close> holding the only browser and \<open>b\<close> waiting, a release more
  than an hour after the browser was created closes it and creates a replacement; \<open>b\<close> is
  not resumed and stays on the wait list.
\<close>

theorem release_recycle_skips_waiter:
  "browserQueue queuedPool = [''b'']
   \<and> fst (releaseBrowser (calmEnv 3600001) 0 queuedPool) = Released None
   \<and> browserQueue (snd (releaseBrowser (calmEnv 3600001) 0 queuedPool)) = [''b'']
   \<and> availableBrowsers (snd (releaseBrowser (calmEnv 3600001) 0 queuedPool)) = [1]"
  by code_simp

text \<open>
  Claim C10: releasing a browser handle that no wrapper of the pool holds returns
  normally and leaves the whole pool state as it was (the browser map with every flag
  and counter, the available list and the wait list).
\<close>

theorem releaseBrowser_unknown:
  assumes "\<forall>(k, w) \<in> set (browsers pool). browser w \<noteq> b"
  shows "releaseBrowser env b pool = (Released None, pool)"
proof -
  have "find (\<lambda>w. browser w = b) (map snd (browsers pool)) = None"
    using assms by (auto simp: find_None_iff)
  then show ?thesis
    by (simp add: releaseBrowser_def findWrapperByBrowser_def)
qed

theorem releaseBrowser_unknown_witness:
  "releaseBrowser (calmEnv 5) 7 queuedPool = (Released None, queuedPool)"
  by (rule releaseBrowser_unknown) (simp add: queuedPool_def lonePool_def pool_defs)

section \<open>Properties of the rounding to doubles\<close>

lemma round_half_even_of_int [simp]: "round_half_even (of_int n) = n"
  by (simp add: round_half_even_def)

lemma round_half_even_bounds:
  "\<lfloor>r\<rfloor> \<le> round_half_even r \<and> round_half_even r \<le> \<lfloor>r\<rfloor> + 1"
  by (simp add: round_half_even_def Let_def)

lemma round_half_even_mono:
  assumes "r \<le> s"
  shows "round_half_even r \<le> round_half_even s"
proof (cases "\<lfloor>r\<rfloor> = \<lfloor>s\<rfloor>")
  case True
  then have "r - of_int \<lfloor>r\<rfloor> \<le> s - of_int \<lfloor>s\<rfloor>" using assms by simp
  then show ?thesis using True by (auto simp add: round_half_even_def Let_def)
next
  case False
  have "\<lfloor>r\<rfloor> \<le> \<lfloor>s\<rfloor>" using assms by (rule floor_mono)
  with False have "\<lfloor>r\<rfloor> + 1 \<le> \<lfloor>s\<rfloor>" by simp
  then show ?thesis
    using round_half_even_bounds [of r] round_half_even_bounds [of s] by linarith
qed

lemma floor_log2_iff:
  assumes "0 < x"
  shows "\<lfloor>log 2 x\<rfloor> = k \<longleftrightarrow> 2 powi k \<le> x \<and> x < 2 powi (k + 1)"
proof -
  have a: "(2::real) powr real_of_int j = 2 powi j" for j
    by (rule powr_real_of_int') simp_all
  have "\<lfloor>log 2 x\<rfloor> = k \<longleftrightarrow> 2 powr real_of_int k \<le> x \<and> x < 2 powr real_of_int (k + 1)"
    using assms by (intro floor_log_eq_powr_iff) simp_all
  then show ?thesis by (simp only: a)
qed

lemma floor_log2_bounds:
  assumes "0 < x"
  shows "2 powi \<lfloor>log 2 x\<rfloor> \<le> x \<and> x < 2 powi (\<lfloor>log 2 x\<rfloor> + 1)"
  using floor_log2_iff [OF assms, of "\<lfloor>log 2 x\<rfloor>"] by simp

lemma floor_log2_mono: "0 < x \<Longrightarrow> x \<le> y \<Longrightarrow> \<lfloor>log 2 x\<rfloor> \<le> \<lfloor>log 2 y\<rfloor>"
  by (intro floor_mono) simp

lemma ulp_exponent_eq:
  assumes "0 < x" "2 powi k \<le> x" "x < 2 powi (k + 1)"
  shows "ulp_exponent x = max k (- 1022) - 52"
proof -
  have "\<lfloor>log 2 x\<rfloor> = k" using assms by (simp add: floor_log2_iff)
  then show ?thesis using assms(1) by (simp add: ulp_exponent_def)
qed

lemma round_double_pos:
  "0 < x \<Longrightarrow>
   round_double x = of_int (round_half_even (x / 2 powi ulp_exponent x)) * 2 powi ulp_exponent x"
  by (simp add: round_double_def)

lemma round_double_minus: "round_double (- x) = - round_double x"
  by (simp add: round_double_def ulp_exponent_def sgn_minus)

lemma round_double_nonneg:
  assumes "0 \<le> x"
  shows "0 \<le> round_double x"
proof (cases "x = 0")
  case True
  then show ?thesis by (simp add: round_double_def)
next
  case False
  with assms have p: "0 < x" by simp
  have "0 \<le> x / 2 powi ulp_exponent x" using p by simp
  then have "0 \<le> \<lfloor>x / 2 powi ulp_exponent x\<rfloor>" by simp
  then have "0 \<le> round_half_even (x / 2 powi ulp_exponent x)"
    using round_half_even_bounds [of "x / 2 powi ulp_exponent x"] by linarith
  then show ?thesis using p by (simp add: round_double_pos)
qed

text \<open>
  A positive number rounds to at most the next power of two above it, and a number in
  the normal range to at least the power of two below it.
\<close>

lemma round_double_upper:
  assumes "0 < x"
  shows "round_double x \<le> 2 powi (ulp_exponent x + 53)"
proof -
  let ?E = "ulp_exponent x"
  let ?k = "\<lfloor>log 2 x\<rfloor>"
  have "x < 2 powi (?k + 1)" using floor_log2_bounds [OF assms] by simp
  also have "\<dots> \<le> 2 powi (?E + 53)"
    using assms by (intro power_int_increasing) (simp_all add: ulp_exponent_def)
  finally have "x < 2 powi (?E + 53)" .
  then have "x / 2 powi ?E < 2 powi (?E + 53) / 2 powi ?E"
    by (simp add: divide_strict_right_mono)
  also have "2 powi (?E + 53) / 2 powi ?E = (2::real) powi 53"
    by (simp add: power_int_add)
  finally have "x / 2 powi ?E \<le> of_int (2 ^ 53)" by simp
  then have "round_half_even (x / 2 powi ?E) \<le> round_half_even (of_int (2 ^ 53))"
    by (rule round_half_even_mono)
  then have "round_half_even (x / 2 powi ?E) \<le> 2 ^ 53" by (simp only: round_half_even_of_int)
  then have "real_of_int (round_half_even (x / 2 powi ?E)) \<le> 2 ^ 53"
    by (metis of_int_le_iff of_int_numeral of_int_power)
  then have A: "real_of_int (round_half_even (x / 2 powi ?E)) * 2 powi ?E \<le> 2 ^ 53 * 2 powi ?E"
    by (intro mult_right_mono) simp_all
  have B: "(2::real) powi (?E + 53) = 2 ^ 53 * 2 powi ?E"
    by (simp add: power_int_add)
  show ?thesis unfolding round_double_pos [OF assms] B by (rule A)
qed

lemma round_double_lower:
  assumes "0 < x" and "- 1022 \<le> \<lfloor>log 2 x\<rfloor>"
  shows "2 powi (ulp_exponent x + 52) \<le> round_double x"
proof -
  let ?E = "ulp_exponent x"
  let ?k = "\<lfloor>log 2 x\<rfloor>"
  have "?E = max ?k (- 1022) - 52" using assms(1) by (simp add: ulp_exponent_def)
  with assms(2) have E: "?E + 52 = ?k" by linarith
  have "2 powi (?E + 52) \<le> x" using floor_log2_bounds [OF assms(1)] E by simp
  then have "2 powi (?E + 52) / 2 powi ?E \<le> x / 2 powi ?E"
    by (simp add: divide_right_mono)
  moreover have "2 powi (?E + 52) / 2 powi ?E = (2::real) powi 52"
    by (simp add: power_int_add)
  ultimately have "of_int (2 ^ 52) \<le> x / 2 powi ?E" by simp
  then have "round_half_even (of_int (2 ^ 52)) \<le> round_half_even (x / 2 powi ?E)"
    by (rule round_half_even_mono)
  then have "2 ^ 52 \<le> round_half_even (x / 2 powi ?E)" by (simp only: round_half_even_of_int)
  then have "2 ^ 52 \<le> real_of_int (round_half_even (x / 2 powi ?E))"
    by (metis of_int_le_iff of_int_numeral of_int_power)
  then have A: "2 ^ 52 * 2 powi ?E \<le> real_of_int (round_half_even (x / 2 powi ?E)) * 2 powi ?E"
    by (intro mult_right_mono) simp_all
  have B: "(2::real) powi (?E + 52) = 2 ^ 52 * 2 powi ?E"
    by (simp add: power_int_add)
  show ?thesis unfolding round_double_pos [OF assms(1)] B by (rule A)
qed

text \<open>Rounding is monotone on the non-negative numbers.\<close>

lemma round_double_mono_pos:
  assumes "0 < x" and "x \<le> y"
  shows "round_double x \<le> round_double y"
proof -
  have y: "0 < y" using assms by simp
  have "\<lfloor>log 2 x\<rfloor> \<le> \<lfloor>log 2 y\<rfloor>" using assms by (rule floor_log2_mono)
  then have EE: "ulp_exponent x \<le> ulp_exponent y"
    using assms y by (simp add: ulp_exponent_def)
  show ?thesis
  proof (cases "ulp_exponent x = ulp_exponent y")
    case True
    have "x / 2 powi ulp_exponent y \<le> y / 2 powi ulp_exponent y"
      using assms(2) by (simp add: divide_right_mono)
    then have "round_half_even (x / 2 powi ulp_exponent y)
        \<le> round_half_even (y / 2 powi ulp_exponent y)"
      by (rule round_half_even_mono)
    then have "real_of_int (round_half_even (x / 2 powi ulp_exponent y)) * 2 powi ulp_exponent y
       \<le> real_of_int (round_half_even (y / 2 powi ulp_exponent y)) * 2 powi ulp_exponent y"
      by (simp add: mult_right_mono)
    then show ?thesis using assms(1) y True by (simp add: round_double_pos)
  next
    case False
    with EE have lt: "ulp_exponent x < ulp_exponent y" by simp
    have "ulp_exponent x = max \<lfloor>log 2 x\<rfloor> (- 1022) - 52"
      and "ulp_exponent y = max \<lfloor>log 2 y\<rfloor> (- 1022) - 52"
      using assms(1) y by (simp_all add: ulp_exponent_def)
    with lt have ky: "- 1022 \<le> \<lfloor>log 2 y\<rfloor>" by linarith
    have "round_double x \<le> 2 powi (ulp_exponent x + 53)"
      using assms(1) by (rule round_double_upper)
    also have "\<dots> \<le> 2 powi (ulp_exponent y + 52)"
      using lt by (intro power_int_increasing) simp_all
    also have "\<dots> \<le> round_double y" using y ky by (rule round_double_lower)
    finally show ?thesis .
  qed
qed

lemma round_double_mono:
  assumes "0 \<le> x" and "x \<le> y"
  shows "round_double x \<le> round_double y"
proof (cases "x = 0")
  case True
  then show ?thesis using assms round_double_nonneg [of y] by (simp add: round_double_def)
next
  case False
  then show ?thesis using assms round_double_mono_pos by simp
qed

text \<open>An integer of magnitude at most \<open>2\<^sup>5\<^sup>3\<close> is a double: rounding leaves it as it is.\<close>

lemma round_double_of_nat_exact:
  assumes "0 \<le> n" and "n \<le> 2 ^ 53"
  shows "round_double (of_int n) = of_int n"
proof (cases "n = 0")
  case True
  then show ?thesis by (simp add: round_double_def)
next
  case False
  with assms have p: "0 < (of_int n :: real)" by simp
  let ?x = "of_int n :: real"
  let ?k = "\<lfloor>log 2 ?x\<rfloor>"
  let ?E = "ulp_exponent ?x"
  have b: "2 powi ?k \<le> ?x \<and> ?x < 2 powi (?k + 1)" using floor_log2_bounds [OF p] .
  have le: "?x \<le> 2 ^ 53" using assms(2) by (metis of_int_le_iff of_int_numeral of_int_power)
  have k0: "0 \<le> ?k"
  proof -
    have "1 \<le> ?x" using assms False by simp
    then have "\<lfloor>log 2 (1::real)\<rfloor> \<le> ?k" by (intro floor_log2_mono) simp_all
    then show ?thesis by simp
  qed
  have k53: "?k \<le> 53"
  proof (rule ccontr)
    assume "\<not> ?k \<le> 53"
    then have "54 \<le> ?k" by simp
    then have "(2::real) powi 54 \<le> 2 powi ?k" by (intro power_int_increasing) simp_all
    with b have "(2::real) powi 54 \<le> ?x" by linarith
    with le show False by simp
  qed
  have "?E = max ?k (- 1022) - 52" using p by (simp add: ulp_exponent_def)
  with k0 have E: "?E = ?k - 52" by linarith
  have "\<exists>m. ?x / 2 powi ?E = of_int m"
  proof (cases "?k \<le> 52")
    case True
    then have "?x / 2 powi ?E = ?x * 2 powi (52 - ?k)"
      unfolding E by (simp add: power_int_diff)
    also have "\<dots> = ?x * 2 ^ nat (52 - ?k)"
      using True by (simp add: power_int_def)
    also have "\<dots> = of_int (n * 2 ^ nat (52 - ?k))" by simp
    finally show ?thesis by blast
  next
    case False
    with k53 have k: "?k = 53" by linarith
    then have "(2::real) ^ 53 \<le> ?x" using b by simp
    with le have "?x = 2 ^ 53" by simp
    then have "?x / 2 powi ?E = of_int (2 ^ 52)" unfolding E k by simp
    then show ?thesis by blast
  qed
  then obtain m where m: "?x / 2 powi ?E = of_int m" ..
  have "round_double ?x = of_int (round_half_even (?x / 2 powi ?E)) * 2 powi ?E"
    using p by (rule round_double_pos)
  also have "\<dots> = of_int m * 2 powi ?E" unfolding m by simp
  also have "\<dots> = ?x / 2 powi ?E * 2 powi ?E" unfolding m ..
  also have "\<dots> = ?x" by simp
  finally show ?thesis .
qed

lemma round_double_of_int_exact:
  assumes "\<bar>n\<bar> \<le> 2 ^ 53"
  shows "round_double (of_int n) = of_int n"
proof (cases "0 \<le> n")
  case True
  then show ?thesis using assms by (simp add: round_double_of_nat_exact)
next
  case False
  then have "round_double (of_int (- n)) = of_int (- n)"
    using assms by (intro round_double_of_nat_exact) simp_all
  then show ?thesis using round_double_minus [of "of_int n"] by simp
qed

lemma round_double_diff_exact:
  assumes "\<bar>a - b\<bar> \<le> 2 ^ 53"
  shows "round_double (real_of_int a - real_of_int b) = real_of_int (a - b)"
  using round_double_of_int_exact [OF assms] by simp

text \<open>The rounding of a positive number in the normal range, given its binade.\<close>

lemma round_double_eval:
  assumes "0 < x" "2 powi k \<le> x" "x < 2 powi (k + 1)" "- 1022 \<le> k"
  shows "round_double x = of_int (round_half_even (x / 2 powi (k - 52))) * 2 powi (k - 52)"
proof -
  have "ulp_exponent x = max k (- 1022) - 52" using assms(1-3) by (rule ulp_exponent_eq)
  with assms(4) have "ulp_exponent x = k - 52" by linarith
  then show ?thesis using assms(1) by (simp add: round_double_pos)
qed

text \<open>
  The two roundings of the edge case below: seven days times \<open>1 - 2\<^sup>-\<^sup>5\<^sup>2\<close> rounds to
  seven days less \<open>2\<^sup>-\<^sup>2\<^sup>3\<close>, and that added to a time of today's magnitude rounds up
  to the whole millisecond.
\<close>

lemma round_double_week_product:
  "round_double ((1 - 1 / 2 ^ 52) * 604800000) = 604800000 - 1 / 2 ^ 23"
proof -
  have "round_double ((1 - 1 / 2 ^ 52) * 604800000)
      = of_int (round_half_even ((1 - 1 / 2 ^ 52) * 604800000 / 2 powi (29 - 52)))
          * 2 powi (29 - 52)"
    by (rule round_double_eval) simp_all
  also have "(1 - 1 / 2 ^ 52) * 604800000 / 2 powi (29 - 52)
      = (5073430118399999 - 66337 / 524288 :: real)"
    by (simp add: power_int_minus field_simps)
  also have "round_half_even (5073430118399999 - 66337 / 524288) = 5073430118399999"
    by (simp add: round_half_even_def Let_def)
  finally show ?thesis by (simp add: power_int_minus field_simps)
qed

lemma round_double_week_sum:
  "round_double (1700000000000 + (604800000 - 1 / 2 ^ 23)) = 1700604800000"
proof -
  have "round_double (1700000000000 + (604800000 - 1 / 2 ^ 23))
      = of_int (round_half_even ((1700000000000 + (604800000 - 1 / 2 ^ 23)) / 2 powi (40 - 52)))
          * 2 powi (40 - 52)"
    by (rule round_double_eval) simp_all
  also have "(1700000000000 + (604800000 - 1 / 2 ^ 23)) / 2 powi (40 - 52)
      = (6965677260800000 - 1 / 2048 :: real)"
    by (simp add: power_int_minus field_simps)
  also have "round_half_even (6965677260800000 - 1 / 2048) = 6965677260800000"
    by (simp add: round_half_even_def Let_def)
  finally show ?thesis by (simp add: power_int_minus field_simps)
qed

section \<open>Properties of the task scheduler\<close>

lemma findOne_Some_id: "findOne tid ts = Some t \<Longrightarrow> task_id t = tid"
  by (induction ts) (auto split: if_splits)

lemma findOne_updateOne_same:
  "findOne tid ts = Some t \<Longrightarrow> task_id (f t) = tid \<Longrightarrow>
   findOne tid (updateOne tid f ts) = Some (f t)"
  by (induction ts) auto

lemma findOne_updateOne_other:
  "tid' \<noteq> tid \<Longrightarrow> (\<And>t. task_id (f t) = task_id t) \<Longrightarrow>
   findOne tid' (updateOne tid f ts) = findOne tid' ts"
  by (induction ts) auto

lemma updateOne_absent: "findOne tid ts = None \<Longrightarrow> updateOne tid f ts = ts"
  by (induction ts) (auto split: if_splits)

lemma db_tasks_queue_add [simp]: "db_tasks (queue_add env task opts st) = db_tasks st"
  by (simp add: queue_add_def)

lemma db_tasks_scheduleTask:
  "scheduleTask env task st = Inr st' \<Longrightarrow> db_tasks st' = db_tasks st"
  by (auto simp add: scheduleTask_def Let_def split: ScheduleType.splits option.splits)

lemma db_tasks_scheduleAll: "db_tasks (snd (scheduleAll env ts st)) = db_tasks st"
proof (induction ts arbitrary: st)
  case Nil
  then show ?case by simp
next
  case (Cons t ts)
  show ?case
  proof (cases "scheduleTask env t st")
    case (Inl e)
    then show ?thesis by simp
  next
    case (Inr st1)
    then show ?thesis using Cons [of st1] db_tasks_scheduleTask [OF Inr] by simp
  qed
qed

text \<open>
  \<open>scheduleTask\<close> against the admission rules of the specification: it adds the job
  with the options the rules give, except for a fixed-delay job whose time has passed.
\<close>

lemma scheduleTask_admits:
  assumes "spec_admission env task = Some opts" and "\<not> past_due env (schedule task)"
  shows "scheduleTask env task st = Inr (queue_add env task opts st)"
proof (cases "schedule_type (schedule task)")
  case Immediate
  then show ?thesis using assms(1) by (auto simp add: spec_admission_def scheduleTask_def Let_def)
next
  case Scheduled
  with assms(1) obtain due where due: "scheduledFor (schedule task) = Some due"
    by (auto simp add: spec_admission_def Let_def split: option.splits)
  with assms(2) Scheduled have "date_now env \<le> due" by (simp add: past_due_def)
  then have "0 \<le> real_of_int due - real_of_int (date_now env)" by simp
  then have "0 \<le> round_double (real_of_int due - real_of_int (date_now env))"
    by (rule round_double_nonneg)
  then have "max 0 (round_double (real_of_int due - real_of_int (date_now env)))
      = round_double (real_of_int due - real_of_int (date_now env))" by simp
  then show ?thesis using assms(1) Scheduled due
    by (auto simp add: spec_admission_def scheduleTask_def Let_def)
next
  case Distributed
  then show ?thesis using assms(1)
    by (auto simp add: spec_admission_def scheduleTask_def Let_def split: option.splits)
next
  case Cron
  then show ?thesis using assms(1)
    by (auto simp add: spec_admission_def scheduleTask_def Let_def split: option.splits)
qed

lemma createdStore_eval:
  "db_tasks createdStore = [sampleTask] \<and> task_id sampleTask = ''task-u1''
   \<and> status sampleTask = PENDING \<and> map job_data (queue createdStore) = [sampleTask]"
  by (simp add: createdStore_def sampleTask_def createTask_def store_and_schedule_def
      validateTaskConfig_def newTask_def scheduleTask_def queue_add_def insertOne_def
      newScheduler_def acceptAll_def sampleEnv_def sampleData_def immediately_def Let_def)

lemma runningStore_eval:
  "db_tasks runningStore = [sampleTask\<lparr>status := RUNNING, startedAt := Some 1\<rparr>]"
  using createdStore_eval
  by (simp add: runningStore_def updateTaskStatus_def Let_def sampleEnv_def)

lemma completedStore_eval: "map status (db_tasks completedStore) = [COMPLETED]"
  using createdStore_eval
  by (simp add: completedStore_def processTask_def updateTaskStatus_def updateTaskResult_def
      Let_def sampleEnv_def)

lemma failedStore_eval:
  "db_tasks failedStore =
     [sampleTask\<lparr>status := FAILED, startedAt := Some 1, completedAt := Some 1,
                 task_error := Some ''boom''\<rparr>]"
  using createdStore_eval
  by (simp add: failedStore_def processTask_def on_failure_def updateTaskStatus_def Let_def
      sampleEnv_def)

text \<open>
  Claim C4, as amended: for every task in the store, whatever its status (\<open>RUNNING\<close>,
  \<open>COMPLETED\<close> and \<open>FAILED\<close> included), \<open>cancelTask\<close> raises no error and overwrites
  the stored status with \<open>CANCELLED\<close>; the other fields of the task and every other task
  are left as they were.
\<close>

theorem cancelTask_overwrites:
  assumes "findOne tid (db_tasks st) = Some t"
  shows "findOne tid (db_tasks (cancelTask tid st)) = Some (t\<lparr>status := CANCELLED\<rparr>)
       \<and> (\<forall>tid'. tid' \<noteq> tid \<longrightarrow>
             findOne tid' (db_tasks (cancelTask tid st)) = findOne tid' (db_tasks st))"
proof -
  have "task_id t = tid" using assms by (rule findOne_Some_id)
  then have "findOne tid (db_tasks (cancelTask tid st)) = Some (t\<lparr>status := CANCELLED\<rparr>)"
    using assms by (simp add: cancelTask_def findOne_updateOne_same)
  moreover have "\<forall>tid'. tid' \<noteq> tid \<longrightarrow>
      findOne tid' (db_tasks (cancelTask tid st)) = findOne tid' (db_tasks st)"
    by (simp add: cancelTask_def findOne_updateOne_other)
  ultimately show ?thesis by simp
qed

theorem cancelTask_overwrites_witness:
  "findOne ''task-u1'' (db_tasks (cancelTask ''task-u1'' failedStore))
     = Some (sampleTask\<lparr>status := CANCELLED, startedAt := Some 1, completedAt := Some 1,
                         task_error := Some ''boom''\<rparr>)"
  using cancelTask_overwrites [of "''task-u1''" failedStore
      "sampleTask\<lparr>status := FAILED, startedAt := Some 1, completedAt := Some 1,
                  task_error := Some ''boom''\<rparr>"]
    failedStore_eval createdStore_eval
  by simp

text \<open>
  The claim as first stated fails: \<open>cancelTask\<close> has no test on the status. Cancelling
  the running task, or the completed one, writes \<open>CANCELLED\<close> over the stored status.
\<close>

theorem cancel_running_overwritten:
  "map status (db_tasks runningStore) = [RUNNING]
   \<and> map status (db_tasks (cancelTask ''task-u1'' runningStore)) = [CANCELLED]
   \<and> map status (db_tasks completedStore) = [COMPLETED]
   \<and> map status (db_tasks (cancelTask ''task-u1'' completedStore)) = [CANCELLED]"
proof -
  have "map status (db_tasks (cancelTask ''task-u1'' runningStore)) = [CANCELLED]"
    using runningStore_eval createdStore_eval by (simp add: cancelTask_def)
  moreover have "db_tasks completedStore
      = [sampleTask\<lparr>status := COMPLETED, startedAt := Some 1,
                     result := Some \<lparr>success = True, result_error = None, duration = 10\<rparr>,
                     completedAt := Some 1\<rparr>]"
    using createdStore_eval
    by (simp add: completedStore_def processTask_def updateTaskStatus_def updateTaskResult_def
        Let_def sampleEnv_def)
  then have "map status (db_tasks (cancelTask ''task-u1'' completedStore)) = [CANCELLED]"
    using createdStore_eval by (simp add: cancelTask_def)
  ultimately show ?thesis using runningStore_eval completedStore_eval by simp
qed

text \<open>What \<open>scheduleTask\<close> computes for a fixed-delay schedule: the difference, as it is.\<close>

lemma scheduled_delay_is_difference:
  assumes "schedule_type (schedule task) = Scheduled"
    and "scheduledFor (schedule task) = Some due"
  shows "scheduleTask env task st =
     Inr (queue_add env task
            \<lparr>job_priority = priority task, job_attempts = TASK_RETRY_ATTEMPTS env,
             delay = Some (round_double (real_of_int due - real_of_int (date_now env))),
             repeat = None\<rparr> st)"
  using assms by (simp add: scheduleTask_def Let_def)

text \<open>What it computes for a distributed-window schedule.\<close>

lemma scheduleTask_distributed:
  assumes "schedule_type (schedule task) = Distributed"
    and "distributionWindow (schedule task) = Some \<lparr>window_start = s, window_end = e\<rparr>"
  shows "scheduleTask env task st =
     Inr (queue_add env task
            \<lparr>job_priority = priority task, job_attempts = TASK_RETRY_ATTEMPTS env,
             delay = Some (max 0 (round_double
                (round_double (real_of_int s
                   + round_double (math_random env * round_double (real_of_int e - real_of_int s)))
                 - real_of_int (date_now env)))),
             repeat = None\<rparr> st)"
  using assms by (simp add: scheduleTask_def Let_def)

text \<open>
  Claim C5 (the delay of a fixed-delay schedule is \<open>scheduledFor - now\<close> clamped to be
  at least 0). The code does not clamp on this path, while the distributed path next to
  it does (\<open>Math.max(0, ...)\<close>): a task submitted at time 5000 with
  \<open>scheduledFor = 1000\<close> is added to the queue with delay \<open>-4000\<close>.
\<close>

theorem scheduled_past_negative_delay:
  "map (\<lambda>j. delay (job_opts j))
     (queue (snd (createTask acceptAll (sampleEnv 5000)
                    (sampleData WARMUP (Some ''p1'') (scheduledAt 1000)) newScheduler)))
   = [Some (- 4000)]"
proof -
  have "round_double (real_of_int 1000 - real_of_int 5000) = real_of_int (1000 - 5000)"
    by (rule round_double_diff_exact) simp
  then have "round_double (- 4000) = - 4000" by simp
  then show ?thesis
    by (simp add: createTask_def store_and_schedule_def validateTaskConfig_def newTask_def
        scheduleTask_def queue_add_def insertOne_def newScheduler_def acceptAll_def sampleEnv_def
        sampleData_def scheduledAt_def immediately_def Let_def)
qed

text \<open>
  Claim C6, as amended: for every job submitted with a distributed-window schedule
  \<open>{start, end}\<close> the admission delay equals \<open>max(0, (start + u * (end - start)) - now)\<close>
  for the number \<open>u\<close> that \<open>Math.random()\<close> returned, each operation rounded to the
  nearest double; consequently, for \<open>0 \<le> u < 1\<close> and every submission made at a time
  \<open>0 \<le> now \<le> start\<close> for a window with \<open>start < end \<le> 2\<^sup>5\<^sup>3\<close> (epoch milliseconds),
  the computed execution time \<open>t\<close>, both as the \<open>scheduledTime\<close> of the code and as
  \<open>now + delay\<close>, satisfies \<open>start \<le> t \<le> end\<close>.
\<close>

theorem distributed_delay_rounded:
  assumes "schedule_type (schedule task) = Distributed"
    and "distributionWindow (schedule task) = Some \<lparr>window_start = s, window_end = e\<rparr>"
  shows "\<exists>t d.
           t = round_double (real_of_int s
                 + round_double (math_random env * round_double (real_of_int e - real_of_int s)))
         \<and> d = max 0 (round_double (t - real_of_int (date_now env)))
         \<and> scheduleTask env task st =
             Inr (queue_add env task
                    \<lparr>job_priority = priority task, job_attempts = TASK_RETRY_ATTEMPTS env,
                     delay = Some d, repeat = None\<rparr> st)
         \<and> (0 \<le> math_random env \<and> math_random env < 1
              \<and> 0 \<le> date_now env \<and> date_now env \<le> s \<and> s < e \<and> e \<le> 2 ^ 53 \<longrightarrow>
               real_of_int s \<le> t \<and> t \<le> real_of_int e
               \<and> real_of_int s \<le> real_of_int (date_now env) + d
               \<and> real_of_int (date_now env) + d \<le> real_of_int e)"
proof -
  let ?u = "math_random env"
  let ?s = "real_of_int s"
  let ?e = "real_of_int e"
  let ?n = "real_of_int (date_now env)"
  let ?r = "round_double (?u * round_double (?e - ?s))"
  let ?t = "round_double (?s + ?r)"
  let ?d = "max 0 (round_double (?t - ?n))"
  have q: "scheduleTask env task st =
      Inr (queue_add env task
             \<lparr>job_priority = priority task, job_attempts = TASK_RETRY_ATTEMPTS env,
              delay = Some ?d, repeat = None\<rparr> st)"
    using assms by (rule scheduleTask_distributed)
  have b: "0 \<le> ?u \<and> ?u < 1 \<and> 0 \<le> date_now env \<and> date_now env \<le> s \<and> s < e \<and> e \<le> 2 ^ 53 \<longrightarrow>
      ?s \<le> ?t \<and> ?t \<le> ?e \<and> ?s \<le> ?n + ?d \<and> ?n + ?d \<le> ?e"
  proof
    assume h: "0 \<le> ?u \<and> ?u < 1 \<and> 0 \<le> date_now env \<and> date_now env \<le> s \<and> s < e \<and> e \<le> 2 ^ 53"
    then have u0: "0 \<le> ?u" and u1: "?u < 1" and n0: "0 \<le> date_now env"
      and ns: "date_now env \<le> s" and se: "s < e" and e53: "e \<le> 2 ^ 53"
      by simp_all
    have s0i: "0 \<le> s" using n0 ns by simp
    have w: "round_double (?e - ?s) = ?e - ?s"
      using round_double_diff_exact [of e s] s0i se e53 by simp
    have wpos: "0 < ?e - ?s" using se by simp
    have r0: "0 \<le> ?r" unfolding w using u0 wpos by (intro round_double_nonneg) simp
    have "?u * (?e - ?s) \<le> ?e - ?s" using u1 wpos by simp
    moreover have "0 \<le> ?u * (?e - ?s)" using u0 wpos by simp
    ultimately have "round_double (?u * (?e - ?s)) \<le> round_double (?e - ?s)"
      by (intro round_double_mono)
    then have r1: "?r \<le> ?e - ?s" using w by simp
    have s_exact: "round_double ?s = ?s"
      using s0i se e53 by (intro round_double_of_int_exact) simp
    have e_exact: "round_double ?e = ?e"
      using s0i se e53 by (intro round_double_of_int_exact) simp
    have s0: "0 \<le> ?s" using s0i by simp
    have "round_double ?s \<le> ?t" using s0 r0 by (intro round_double_mono) simp_all
    then have t_lo: "?s \<le> ?t" using s_exact by simp
    have "?t \<le> round_double ?e" using s0 r0 r1 by (intro round_double_mono) simp_all
    then have t_hi: "?t \<le> ?e" using e_exact by simp
    have sn: "round_double (?s - ?n) = ?s - ?n"
      using round_double_diff_exact [of s "date_now env"] n0 ns se e53 by simp
    have en: "round_double (?e - ?n) = ?e - ?n"
      using round_double_diff_exact [of e "date_now env"] n0 ns se e53 by simp
    have "0 \<le> ?s - ?n" using ns by simp
    then have "round_double (?s - ?n) \<le> round_double (?t - ?n)"
      using t_lo by (intro round_double_mono) simp_all
    then have lo: "?s - ?n \<le> round_double (?t - ?n)" using sn by simp
    have "0 \<le> ?t - ?n" using ns t_lo by simp
    then have "round_double (?t - ?n) \<le> round_double (?e - ?n)"
      using t_hi by (intro round_double_mono) simp_all
    then have hi: "round_double (?t - ?n) \<le> ?e - ?n" using en by simp
    have "0 \<le> round_double (?t - ?n)" using lo ns by simp
    then have d: "?d = round_double (?t - ?n)" by simp
    show "?s \<le> ?t \<and> ?t \<le> ?e \<and> ?s \<le> ?n + ?d \<and> ?n + ?d \<le> ?e"
      unfolding d using t_lo t_hi lo hi by simp
  qed
  show ?thesis using q b by blast
qed

theorem distributed_delay_rounded_witness:
  "\<exists>d. scheduleTask (sampleEnv 400) (sampleTask\<lparr>schedule := distributedOver 1000 2000\<rparr>)
          newScheduler =
        Inr (queue_add (sampleEnv 400) (sampleTask\<lparr>schedule := distributedOver 1000 2000\<rparr>)
               \<lparr>job_priority = priority sampleTask, job_attempts = 3, delay = Some d,
                repeat = None\<rparr> newScheduler)
      \<and> 1000 \<le> 400 + d \<and> 400 + d \<le> 2000"
  using distributed_delay_rounded [of "sampleTask\<lparr>schedule := distributedOver 1000 2000\<rparr>"
      1000 2000 "sampleEnv 400" newScheduler]
  by (auto simp add: sampleEnv_def distributedOver_def immediately_def)

text \<open>
  The claim as first stated fails in its upper bound: in double arithmetic the sum
  \<open>start + u * (end - start)\<close> can round up to \<open>end\<close>. For a window of seven days
  starting at the time of submission, 1700000000000, and \<open>u = 1 - 2\<^sup>-\<^sup>5\<^sup>2\<close>, the job is
  added with a delay of exactly seven days: \<open>t = end\<close>, not \<open>t < end\<close>.
\<close>

theorem distributed_reaches_window_end:
  "scheduleTask (edgeEnv 1700000000000)
      (sampleTask\<lparr>schedule := distributedOver 1700000000000 1700604800000\<rparr>) newScheduler
     = Inr (queue_add (edgeEnv 1700000000000)
              (sampleTask\<lparr>schedule := distributedOver 1700000000000 1700604800000\<rparr>)
              \<lparr>job_priority = priority sampleTask, job_attempts = 3, delay = Some 604800000,
               repeat = None\<rparr> newScheduler)
   \<and> \<not> (real_of_int 1700000000000 + 604800000 < real_of_int 1700604800000)"
proof -
  let ?S = "real_of_int 1700000000000"
  let ?E = "real_of_int 1700604800000"
  let ?U = "1 - 1 / 2 ^ 52 :: real"
  let ?task = "sampleTask\<lparr>schedule := distributedOver 1700000000000 1700604800000\<rparr>"
  have "round_double (?E - ?S) = real_of_int (1700604800000 - 1700000000000)"
    by (rule round_double_diff_exact) simp
  then have a: "round_double (?E - ?S) = 604800000" by simp
  have b: "round_double (?U * 604800000) = 604800000 - 1 / 2 ^ 23"
    by (rule round_double_week_product)
  have c: "round_double (?S + (604800000 - 1 / 2 ^ 23)) = 1700604800000"
    using round_double_week_sum by simp
  have d: "round_double 604800000 = 604800000"
    using a by simp
  have "max 0 (round_double (round_double (?S + round_double (?U * round_double (?E - ?S))) - ?S))
      = max 0 (round_double (round_double (?S + round_double (?U * 604800000)) - ?S))"
    by (simp only: a)
  also have "\<dots> = max 0 (round_double (round_double (?S + (604800000 - 1 / 2 ^ 23)) - ?S))"
    by (simp only: b)
  also have "\<dots> = max 0 (round_double (1700604800000 - ?S))"
    by (simp only: c)
  also have "\<dots> = 604800000"
    by (simp add: d)
  finally have delay_eq:
    "max 0 (round_double (round_double (?S + round_double (?U * round_double (?E - ?S))) - ?S))
      = 604800000" .
  have mr: "math_random (edgeEnv 1700000000000) = ?U"
    and dn: "date_now (edgeEnv 1700000000000) = 1700000000000"
    and ra: "TASK_RETRY_ATTEMPTS (edgeEnv 1700000000000) = 3"
    by (simp_all add: edgeEnv_def sampleEnv_def)
  have "scheduleTask (edgeEnv 1700000000000) ?task newScheduler
     = Inr (queue_add (edgeEnv 1700000000000) ?task
              \<lparr>job_priority = priority ?task,
               job_attempts = TASK_RETRY_ATTEMPTS (edgeEnv 1700000000000),
               delay = Some (max 0 (round_double
                  (round_double (?S + round_double (math_random (edgeEnv 1700000000000)
                                                       * round_double (?E - ?S)))
                   - real_of_int (date_now (edgeEnv 1700000000000))))),
               repeat = None\<rparr> newScheduler)"
    by (rule scheduleTask_distributed) (simp_all add: distributedOver_def immediately_def)
  then have "scheduleTask (edgeEnv 1700000000000) ?task newScheduler
     = Inr (queue_add (edgeEnv 1700000000000) ?task
              \<lparr>job_priority = priority ?task, job_attempts = 3, delay = Some 604800000,
               repeat = None\<rparr> newScheduler)"
    by (simp only: mr dn ra delay_eq)
  then show ?thesis by simp
qed

lemma spec_admission_profileId [simp]:
  "spec_admission env (task\<lparr>profileId := p\<rparr>) = spec_admission env task"
  by (simp add: spec_admission_def cong: ScheduleType.case_cong)






text \<open>
  Outside the amended claim: a descriptor \<open>{type: 'scheduled'}\<close> without
  \<open>scheduledFor\<close> passes \<open>validateTaskConfig\<close> (which looks at the configuration only);
  the task is stored, \<open>scheduleTask\<close> throws, and nothing is queued or returned.
\<close>

lemma createTask_descriptor_without_field:
  "fst (createTask acceptAll (sampleEnv 0) (sampleData WARMUP (Some ''p1'') scheduledBare)
          newScheduler) = Inl TypeError
   \<and> map (\<lambda>t. (task_id t, status t))
       (db_tasks (snd (createTask acceptAll (sampleEnv 0)
                         (sampleData WARMUP (Some ''p1'') scheduledBare) newScheduler)))
       = [(''task-u1'', PENDING)]
   \<and> queue (snd (createTask acceptAll (sampleEnv 0)
                    (sampleData WARMUP (Some ''p1'') scheduledBare) newScheduler)) = []"
  by (simp add: createTask_def store_and_schedule_def validateTaskConfig_def newTask_def
      scheduleTask_def insertOne_def newScheduler_def acceptAll_def sampleEnv_def sampleData_def
      scheduledBare_def immediately_def Let_def)

text \<open>
  What \<open>retryTask\<close> does in each of its three cases. The last one is stated for a task
  that the admission rules cover (its descriptor carries the field its type names, and
  it is not a fixed-delay descriptor for a time that has passed).
\<close>

lemma retryTask_cases:
  "(findOne tid (db_tasks st) = None \<longrightarrow> retryTask env tid st = (Inl (TaskNotFound tid), st))
   \<and> (findOne tid (db_tasks st) = Some t \<and> status t \<noteq> FAILED \<longrightarrow>
        retryTask env tid st = (Inl OnlyFailedCanBeRetried, st))
   \<and> (findOne tid (db_tasks st) = Some t \<and> status t = FAILED
        \<and> spec_admission env (t\<lparr>status := PENDING, attempts := 0\<rparr>) = Some opts
        \<and> \<not> past_due env (schedule t) \<longrightarrow>
        fst (retryTask env tid st) = Inr ()
        \<and> findOne tid (db_tasks (snd (retryTask env tid st)))
            = Some (t\<lparr>status := PENDING, attempts := 0\<rparr>)
        \<and> (\<forall>tid'. tid' \<noteq> tid \<longrightarrow>
              findOne tid' (db_tasks (snd (retryTask env tid st))) = findOne tid' (db_tasks st))
        \<and> queue (snd (retryTask env tid st)) =
              queue st @ [\<lparr>job_id = bull_job_id env (jobs_added st),
                            job_data = t\<lparr>status := PENDING, attempts := 0\<rparr>,
                            job_opts = opts\<rparr>])"
proof (intro conjI impI)
  assume "findOne tid (db_tasks st) = None"
  then show "retryTask env tid st = (Inl (TaskNotFound tid), st)" by (simp add: retryTask_def)
next
  assume "findOne tid (db_tasks st) = Some t \<and> status t \<noteq> FAILED"
  then show "retryTask env tid st = (Inl OnlyFailedCanBeRetried, st)"
    by (simp add: retryTask_def)
next
  assume a: "findOne tid (db_tasks st) = Some t \<and> status t = FAILED
        \<and> spec_admission env (t\<lparr>status := PENDING, attempts := 0\<rparr>) = Some opts
        \<and> \<not> past_due env (schedule t)"
  let ?t = "t\<lparr>status := PENDING, attempts := 0\<rparr>"
  let ?st1 = "st\<lparr>db_tasks := updateOne tid (\<lambda>t. t\<lparr>status := PENDING, attempts := 0\<rparr>) (db_tasks st)\<rparr>"
  from a have f: "findOne tid (db_tasks st) = Some t" and s: "status t = FAILED"
    and adm: "spec_admission env ?t = Some opts" and npd: "\<not> past_due env (schedule ?t)"
    by simp_all
  have id: "task_id t = tid" using f by (rule findOne_Some_id)
  have "scheduleTask env ?t ?st1 = Inr (queue_add env ?t opts ?st1)"
    using adm npd by (rule scheduleTask_admits)
  then have r: "retryTask env tid st = (Inr (), queue_add env ?t opts ?st1)"
    using f s by (simp add: retryTask_def Let_def)
  show "fst (retryTask env tid st) = Inr ()" unfolding r by simp
  show "findOne tid (db_tasks (snd (retryTask env tid st))) = Some ?t"
    unfolding r using f id by (simp add: findOne_updateOne_same)
  show "\<forall>tid'. tid' \<noteq> tid \<longrightarrow>
      findOne tid' (db_tasks (snd (retryTask env tid st))) = findOne tid' (db_tasks st)"
    unfolding r by (simp add: findOne_updateOne_other)
  show "queue (snd (retryTask env tid st)) =
      queue st @ [\<lparr>job_id = bull_job_id env (jobs_added st), job_data = ?t, job_opts = opts\<rparr>]"
    unfolding r by (simp add: queue_add_def)
qed

lemma failedScheduledStore_eval:
  "db_tasks failedScheduledStore =
     [sampleTask\<lparr>schedule := scheduledAt 1000, status := FAILED, startedAt := Some 1000,
                 completedAt := Some 1000, task_error := Some ''boom''\<rparr>]
   \<and> map (\<lambda>j. delay (job_opts j)) (queue failedScheduledStore) = [Some 1000]
   \<and> jobs_added failedScheduledStore = 1"
proof -
  have "round_double (real_of_int 1000 - real_of_int 0) = real_of_int (1000 - 0)"
    by (rule round_double_diff_exact) simp
  then have "round_double 1000 = 1000" by simp
  then show ?thesis
    by (simp add: failedScheduledStore_def sampleTask_def createTask_def store_and_schedule_def
        validateTaskConfig_def newTask_def scheduleTask_def queue_add_def insertOne_def
        newScheduler_def acceptAll_def sampleEnv_def sampleData_def scheduledAt_def
        immediately_def processTask_def on_failure_def updateTaskStatus_def Let_def)
qed

text \<open>
  Claim C8 (\<open>retryTask\<close> raises an error for an unknown id, raises an error and changes
  nothing for a task that is not \<open>FAILED\<close>, and for a \<open>FAILED\<close> task resets the attempt
  count to 0 and the status to \<open>PENDING\<close> and re-admits it per its schedule descriptor).
  The code does all of this but the last for a fixed-delay task, whose time has by then
  passed: the fixed-delay task submitted for time 1000 that failed, retried at time
  5000, is reset and added to the queue again with delay \<open>-4000\<close>, where the admission
  rule for its descriptor gives the clamped delay 0.
\<close>

theorem retry_past_due_negative_delay:
  "map status (db_tasks failedScheduledStore) = [FAILED]
   \<and> fst (retryTask (sampleEnv 5000) ''task-u1'' failedScheduledStore) = Inr ()
   \<and> map (\<lambda>t. (status t, attempts t, schedule t))
       (db_tasks (snd (retryTask (sampleEnv 5000) ''task-u1'' failedScheduledStore)))
       = [(PENDING, 0, scheduledAt 1000)]
   \<and> map (\<lambda>j. delay (job_opts j))
       (queue (snd (retryTask (sampleEnv 5000) ''task-u1'' failedScheduledStore)))
       = [Some 1000, Some (- 4000)]
   \<and> map_option delay (spec_admission (sampleEnv 5000) (sampleTask\<lparr>schedule := scheduledAt 1000\<rparr>))
       = Some (Some 0)"
proof -
  have "round_double (real_of_int 1000 - real_of_int 5000) = real_of_int (1000 - 5000)"
    by (rule round_double_diff_exact) simp
  then have r: "round_double (- 4000) = - 4000" by simp
  have id: "task_id sampleTask = ''task-u1''" using createdStore_eval by simp
  have 1: "map status (db_tasks failedScheduledStore) = [FAILED]"
    using failedScheduledStore_eval by simp
  have 2: "fst (retryTask (sampleEnv 5000) ''task-u1'' failedScheduledStore) = Inr ()
     \<and> map (\<lambda>t. (status t, attempts t, schedule t))
         (db_tasks (snd (retryTask (sampleEnv 5000) ''task-u1'' failedScheduledStore)))
         = [(PENDING, 0, scheduledAt 1000)]
     \<and> map (\<lambda>j. delay (job_opts j))
         (queue (snd (retryTask (sampleEnv 5000) ''task-u1'' failedScheduledStore)))
         = [Some 1000, Some (- 4000)]"
    using failedScheduledStore_eval id r
    by (simp add: retryTask_def scheduleTask_def queue_add_def scheduledAt_def immediately_def
        sampleEnv_def sampleTask_def newTask_def Let_def)
  have 3: "map_option delay
        (spec_admission (sampleEnv 5000) (sampleTask\<lparr>schedule := scheduledAt 1000\<rparr>))
      = Some (Some 0)"
    using r by (simp add: spec_admission_def scheduledAt_def immediately_def sampleEnv_def Let_def)
  show ?thesis using 1 2 3 by blast
qed

lemma never_scheduled_updateOne:
  "never_scheduled ts \<Longrightarrow>
   (\<And>t. status (f t) \<in> {PENDING, RUNNING, COMPLETED, FAILED, CANCELLED}) \<Longrightarrow>
   never_scheduled (updateOne tid f ts)"
  unfolding never_scheduled_def by (induction ts) auto

lemma never_scheduled_store_and_schedule:
  assumes "never_scheduled (db_tasks st)" and "status task = PENDING"
  shows "never_scheduled (db_tasks (snd (store_and_schedule env task st)))"
proof (cases "scheduleTask env task (insertOne task st)")
  case (Inl e)
  then show ?thesis using assms
    by (simp add: store_and_schedule_def Let_def insertOne_def never_scheduled_def)
next
  case (Inr st2)
  then show ?thesis using assms db_tasks_scheduleTask [OF Inr]
    by (simp add: store_and_schedule_def Let_def insertOne_def never_scheduled_def)
qed

text \<open>Every scheduler operation keeps \<open>SCHEDULED\<close> out of the store.\<close>

lemma never_scheduled_step:
  assumes "never_scheduled (db_tasks st)"
  shows "never_scheduled (db_tasks (sched_step joi eop st))"
proof (cases eop)
  case (Pair env op)
  show ?thesis
  proof (cases op)
    case (CreateTask d)
    have s: "never_scheduled (db_tasks (snd (store_and_schedule env task st)))"
      if "status task = PENDING" for task
      using assms that by (rule never_scheduled_store_and_schedule)
    have "never_scheduled (db_tasks (snd (createTask joi env d st)))"
      using assms
      by (auto simp add: createTask_def Let_def intro!: s split: sum.splits option.splits)
         (simp_all add: newTask_def)
    then show ?thesis using Pair CreateTask by simp
  next
    case (CancelTask tid)
    then show ?thesis using Pair assms by (simp add: cancelTask_def never_scheduled_updateOne)
  next
    case (RetryTask tid)
    have "never_scheduled (db_tasks (snd (retryTask env tid st)))"
    proof (cases "findOne tid (db_tasks st)")
      case None
      then show ?thesis using assms by (simp add: retryTask_def)
    next
      case (Some t0)
      let ?st1 = "st\<lparr>db_tasks := updateOne tid (\<lambda>t. t\<lparr>status := PENDING, attempts := 0\<rparr>) (db_tasks st)\<rparr>"
      have n1: "never_scheduled (db_tasks ?st1)"
        using assms by (simp add: never_scheduled_updateOne)
      show ?thesis
      proof (cases "scheduleTask env (t0\<lparr>status := PENDING, attempts := 0\<rparr>) ?st1")
        case (Inl e)
        then show ?thesis using Some assms n1 by (simp add: retryTask_def Let_def)
      next
        case (Inr st2)
        then show ?thesis using Some assms n1 db_tasks_scheduleTask [OF Inr]
          by (simp add: retryTask_def Let_def)
      qed
    qed
    then show ?thesis using Pair RetryTask by simp
  next
    case (ProcessTask task n outcome)
    have r: "never_scheduled (db_tasks (updateTaskStatus env tid RUNNING None s))"
      if "never_scheduled (db_tasks s)" for s tid
      using that by (simp add: updateTaskStatus_def never_scheduled_updateOne Let_def)
    have f: "never_scheduled (db_tasks (on_failure env task n msg s))"
      if "never_scheduled (db_tasks s)" for s msg
      using that by (simp add: on_failure_def updateTaskStatus_def never_scheduled_updateOne Let_def)
    have u: "never_scheduled (db_tasks (updateTaskResult env tid res s))"
      if "never_scheduled (db_tasks s)" for s tid res
      using that by (simp add: updateTaskResult_def never_scheduled_updateOne)
    have "never_scheduled (db_tasks (snd (processTask env task n outcome st)))"
      using assms by (cases outcome) (simp_all add: processTask_def Let_def r f u)
    then show ?thesis using Pair ProcessTask by simp
  next
    case LoadPendingTasks
    then show ?thesis using Pair assms
      by (simp add: loadPendingTasks_def db_tasks_scheduleAll)
  next
    case ScanTick
    then show ?thesis using Pair assms by (simp add: scanTick_def db_tasks_scheduleAll)
  qed
qed

lemma never_scheduled_run:
  "never_scheduled (db_tasks st) \<Longrightarrow> never_scheduled (db_tasks (sched_run joi ops st))"
  unfolding sched_run_def by (induction ops arbitrary: st) (auto simp: never_scheduled_step)

lemma scheduledDue_empty: "never_scheduled ts \<Longrightarrow> scheduledDue env ts = []"
  unfolding never_scheduled_def scheduledDue_def by (induction ts) auto

text \<open>
  Claim C9: starting from the empty store, after every sequence of scheduler operations
  (submissions, cancellations, retries, executions with their status updates, the load of
  pending tasks and the periodic scan) the stored status of every task is one of
  \<open>PENDING\<close>, \<open>RUNNING\<close>, \<open>COMPLETED\<close>, \<open>FAILED\<close>, \<open>CANCELLED\<close>, never \<open>SCHEDULED\<close>;
  so the query of the periodic scan, at whatever time, selects no task.
\<close>

theorem status_never_SCHEDULED:
  "never_scheduled (db_tasks (sched_run joi ops newScheduler))
   \<and> scheduledDue env (db_tasks (sched_run joi ops newScheduler)) = []"
proof -
  have "never_scheduled (db_tasks newScheduler)"
    by (simp add: never_scheduled_def newScheduler_def)
  then have "never_scheduled (db_tasks (sched_run joi ops newScheduler))"
    by (rule never_scheduled_run)
  then show ?thesis by (simp add: scheduledDue_empty)
qed

theorem status_never_SCHEDULED_witness:
  "never_scheduled
     (db_tasks (sched_run acceptAll
        [(sampleEnv 0, CreateTask (sampleData WARMUP (Some ''p1'') (scheduledAt 5))),
         (sampleEnv 1, ProcessTask sampleTask 2 (Thrown ''boom'')),
         (sampleEnv 2, RetryTask ''task-u1''),
         (sampleEnv 3, CancelTask ''task-u1''),
         (sampleEnv 9, ScanTick)] newScheduler))
   \<and> scheduledDue (sampleEnv 9)
       (db_tasks (sched_run acceptAll
          [(sampleEnv 0, CreateTask (sampleData WARMUP (Some ''p1'') (scheduledAt 5))),
           (sampleEnv 1, ProcessTask sampleTask 2 (Thrown ''boom'')),
           (sampleEnv 2, RetryTask ''task-u1''),
           (sampleEnv 3, CancelTask ''task-u1''),
           (sampleEnv 9, ScanTick)] newScheduler)) = []"
  by (rule status_never_SCHEDULED)

end
